theory Spec2Isabelle
  imports Complex_Main "HOL-Library.Log_Nat"
begin

section \<open>Python values\<close>

text \<open>
  The script \<^verbatim>\<open>yolo.py\<close> is glue code around OpenCV, a pretrained detector and an
  external callback. A float is modelled by the \<^typ>\<open>real\<close> number it holds, a Python integer
  by an \<^typ>\<open>int\<close>, and every exception the code can raise is a value of \<open>py_error\<close>.
  \<open>IOError\<close> is listed too: the specification names it, the code never raises it.
\<close>

datatype py_error =
  AssertionError | ZeroDivisionError | OverflowError | IndexError | IOError

subsection \<open>Float arithmetic\<close>

text \<open>
  The script computes with floats in two places: the double division of line 107 and
  numpy's single precision product of lines 76 and 118. Both give the exact result rounded
  to the nearest value of the format, ties to the even significand. \<open>round_float p emin\<close>
  is this rounding for a significand of \<open>p\<close> bits and a least exponent \<open>emin\<close>, below which
  the spacing stays that of the subnormal numbers; the exponent is not bounded above, so
  a result of magnitude \<open>2 ^ 1024\<close> or more stands for a double infinity. NaN does not
  occur: the script divides finite numbers by a divisor that is not zero.
\<close>

definition pow2 :: "int \<Rightarrow> real" where
  "pow2 k = (if 0 \<le> k then 2 ^ nat k else 1 / 2 ^ nat (- k))"

text \<open>For \<open>0 < x\<close>, the exponent \<open>e\<close> with \<open>2 ^ e \<le> x < 2 ^ (e + 1)\<close>.\<close>

definition exponent :: "real \<Rightarrow> int" where
  "exponent x = (if 1 \<le> x then bitlen \<lfloor>x\<rfloor> - 1 else - bitlen (\<lceil>1 / x\<rceil> - 1))"

definition round_half_even :: "real \<Rightarrow> int" where
  "round_half_even x =
     (let n = \<lfloor>x\<rfloor>; d = x - real_of_int n
      in if d < 1/2 then n else if 1/2 < d then n + 1 else if even n then n else n + 1)"

definition round_float :: "nat \<Rightarrow> int \<Rightarrow> real \<Rightarrow> real" where
  "round_float p emin x =
     (if x = 0 then 0
      else let e = max (exponent \<bar>x\<bar>) emin; q = pow2 (e - int p + 1)
           in real_of_int (round_half_even (x / q)) * q)"

definition float32 :: "real \<Rightarrow> real" where
  "float32 x = round_float 24 (- 126) x"

definition float64 :: "real \<Rightarrow> real" where
  "float64 x = round_float 53 (- 1022) x"

text \<open>\<^verbatim>\<open>int(x)\<close> on a float truncates toward zero.\<close>

definition py_int :: "real \<Rightarrow> int" where
  "py_int x = (if 0 \<le> x then \<lfloor>x\<rfloor> else \<lceil>x\<rceil>)"

text \<open>
  \<^verbatim>\<open>a / b\<close> on floats raises on a zero divisor and gives the rounded quotient otherwise, an
  infinity when it overflows.
\<close>

definition truediv :: "real \<Rightarrow> real \<Rightarrow> py_error + real" where
  "truediv a b = (if b = 0 then Inl ZeroDivisionError else Inr (float64 (a / b)))"

text \<open>\<^verbatim>\<open>math.floor(x)\<close> on a float gives an integer and raises on an infinity.\<close>

definition math_floor :: "real \<Rightarrow> py_error + int" where
  "math_floor x = (if 2 ^ 1024 \<le> \<bar>x\<bar> then Inl OverflowError else Inr \<lfloor>x\<rfloor>)"

text \<open>\<^verbatim>\<open>a % b\<close> on integers: the sign follows the divisor, as \<open>mod\<close> on \<^typ>\<open>int\<close> does.\<close>

definition py_mod :: "int \<Rightarrow> int \<Rightarrow> py_error + int" where
  "py_mod a b = (if b = 0 then Inl ZeroDivisionError else Inr (a mod b))"

text \<open>The decimal digits of \<^verbatim>\<open>{n}\<close> in an f-string.\<close>

fun str_nat :: "nat \<Rightarrow> string" where
  "str_nat n =
     (if n < 10 then [''0123456789'' ! n]
      else str_nat (n div 10) @ [''0123456789'' ! (n mod 10)])"

declare str_nat.simps [simp del]

section \<open>Frames, detections and the observable effects\<close>

text \<open>
  A frame is a numpy array: its shape, its decoded content (opaque here) and the
  drawing calls applied to it so far, in order.
\<close>

type_synonym colour = "nat \<times> nat \<times> nat"

datatype draw =
    Rectangle "int \<times> int" "int \<times> int" colour nat
  | PutText string "int \<times> int" nat real colour nat

record image =
  shape0 :: nat
  shape1 :: nat
  pixels :: nat
  drawn :: "draw list"

text \<open>
  One row of \<^verbatim>\<open>results.xyxyn[0]\<close>: the normalized box, the confidence and the class.
  \<^verbatim>\<open>score_frame\<close> splits it into the label (last column) and the rest.
\<close>

record detection =
  x1n :: real
  y1n :: real
  x2n :: real
  y2n :: real
  conf :: real
  cls :: real

type_synonym cord_row = "real \<times> real \<times> real \<times> real \<times> real"
type_synonym results = "real list \<times> cord_row list"

text \<open>
  Frames are mutable objects that the callback and the renderer share, so they live in
  a heap and are passed by reference. A pixel region is the Python list
  \<^verbatim>\<open>[frame, x1, y1, x2-x1, y2-y1]\<close>.
\<close>

type_synonym ref = nat
type_synonym region = "ref \<times> int \<times> int \<times> int \<times> int"

text \<open>
  Every call into OpenCV, the detector or the callback is recorded in a trace.
  \<open>Imshow\<close> and \<open>Model\<close> also record the content of the buffer at the time of the call.
\<close>

datatype event =
    StartWindowThread
  | Read "ref option"
  | Imshow string ref image
  | Model ref image
  | Logic "region list" real real
  | Draw ref draw
  | Release
  | DestroyAllWindows
  | WaitKey nat

text \<open>
  The state of a run: the heap of frame buffers with the next free reference, the trace,
  the attributes \<^verbatim>\<open>self.width\<close> and \<^verbatim>\<open>self.height\<close> of the object, and the local counter
  \<^verbatim>\<open>current_frame\<close> of \<^verbatim>\<open>__call__\<close>, kept here so that it can be observed.
\<close>

record state =
  heap :: "ref \<Rightarrow> image"
  fresh :: ref
  trace :: "event list"
  self_width :: real
  self_height :: real
  current_frame :: int

text \<open>
  What \<^verbatim>\<open>cv2.VideoCapture(settings.VIDEO_INPUT)\<close> gives: an object that is opened or
  not, its reported properties, and the frames it will decode. The constructor returns
  an object also for a file it cannot open.
\<close>

record capture =
  opened :: bool
  prop_width :: real
  prop_height :: real
  prop_fps :: real
  stream :: "image list"

definition emit :: "event \<Rightarrow> state \<Rightarrow> state" where
  "emit e s = s\<lparr>trace := trace s @ [e]\<rparr>"

text \<open>\<^verbatim>\<open>cv2.rectangle\<close> and \<^verbatim>\<open>cv2.putText\<close> write into the buffer they are given.\<close>

definition draw_on :: "ref \<Rightarrow> draw \<Rightarrow> state \<Rightarrow> state" where
  "draw_on frame d s =
     emit (Draw frame d)
       (s\<lparr>heap := (heap s)(frame := (heap s frame)\<lparr>drawn := drawn (heap s frame) @ [d]\<rparr>)\<rparr>)"

definition cv2_rectangle ::
  "ref \<Rightarrow> int \<times> int \<Rightarrow> int \<times> int \<Rightarrow> colour \<Rightarrow> nat \<Rightarrow> state \<Rightarrow> state" where
  "cv2_rectangle frame p1 p2 bgr thickness s = draw_on frame (Rectangle p1 p2 bgr thickness) s"

definition cv2_putText ::
  "ref \<Rightarrow> string \<Rightarrow> int \<times> int \<Rightarrow> nat \<Rightarrow> real \<Rightarrow> colour \<Rightarrow> nat \<Rightarrow> state \<Rightarrow> state" where
  "cv2_putText frame txt org font scale colr thickness s =
     draw_on frame (PutText txt org font scale colr thickness) s"

definition cv2_imshow :: "string \<Rightarrow> ref \<Rightarrow> state \<Rightarrow> state" where
  "cv2_imshow name frame s = emit (Imshow name frame (heap s frame)) s"

definition FONT_HERSHEY_SIMPLEX :: nat where
  "FONT_HERSHEY_SIMPLEX = 0"

text \<open>\<^verbatim>\<open>player.read()\<close> with a frame left: the frame is decoded into a new buffer.\<close>

definition player_read :: "image \<Rightarrow> state \<Rightarrow> ref \<times> state" where
  "player_read img s =
     (fresh s,
      emit (Read (Some (fresh s))) (s\<lparr>heap := (heap s)(fresh s := img), fresh := fresh s + 1\<rparr>))"

text \<open>The external callback \<^verbatim>\<open>webcam.logic\<close>: the call is recorded, its own work is not modelled.\<close>

definition logic :: "region list \<Rightarrow> real \<Rightarrow> real \<Rightarrow> state \<Rightarrow> state" where
  "logic faces w h s = emit (Logic faces w h) s"

section \<open>The class \<^verbatim>\<open>ObjectDetection\<close>\<close>

text \<open>
  \<^verbatim>\<open>get_video_from_file\<close>: builds the capture (the argument \<open>cap\<close> is what the constructor
  returns), stores its width and height on the object and returns it. The assertion
  \<^verbatim>\<open>cap is not None\<close> holds for every constructed object, so the method never raises.
\<close>

definition get_video_from_file :: "capture \<Rightarrow> state \<Rightarrow> capture \<times> state" where
  "get_video_from_file cap s =
     (cap, s\<lparr>self_width := prop_width cap, self_height := prop_height cap\<rparr>)"

text \<open>
  \<^verbatim>\<open>score_frame\<close>: the pretrained model is a parameter, a function of the frame's content
  that gives the rows of \<^verbatim>\<open>results.xyxyn[0]\<close>. The slices \<^verbatim>\<open>[:, -1]\<close> and \<^verbatim>\<open>[:, :-1]\<close> are
  \<open>last_column\<close> and \<open>other_columns\<close>.
\<close>

definition last_column :: "detection list \<Rightarrow> real list" where
  "last_column rows = map cls rows"

definition other_columns :: "detection list \<Rightarrow> cord_row list" where
  "other_columns rows = map (\<lambda>d. (x1n d, y1n d, x2n d, y2n d, conf d)) rows"

definition score_frame :: "(image \<Rightarrow> detection list) \<Rightarrow> ref \<Rightarrow> state \<Rightarrow> results \<times> state" where
  "score_frame model frame s =
     (let rows = model (heap s frame);
          labels = last_column rows;
          cord = other_columns rows
      in ((labels, cord), emit (Model frame (heap s frame)) s))"

text \<open>
  The product \<^verbatim>\<open>row[k] * shape\<close> of lines 76 and 118: \<^verbatim>\<open>row[k]\<close> is a numpy \<^verbatim>\<open>float32\<close> and
  \<^verbatim>\<open>shape\<close> a Python integer, which numpy 2 converts to \<^verbatim>\<open>float32\<close> before it multiplies
  in single precision. Products beyond the range of \<^verbatim>\<open>float32\<close> are not modelled: the
  coordinates of the detector are in the unit interval.
\<close>

definition mul_float32 :: "real \<Rightarrow> nat \<Rightarrow> real" where
  "mul_float32 v shape = float32 (v * float32 (real shape))"

text \<open>The expression \<^verbatim>\<open>int(row[k] * shape)\<close> of lines 76 and 118.\<close>

definition to_pixel :: "real \<Rightarrow> nat \<Rightarrow> int" where
  "to_pixel v shape = py_int (mul_float32 v shape)"

definition label_text :: "nat \<Rightarrow> string" where
  "label_text n = ''Total Targets: '' @ str_nat n"

text \<open>
  The \<^verbatim>\<open>for i in range(n)\<close> loop of \<^verbatim>\<open>plot_boxes\<close>, over the indices still to visit.
  \<^verbatim>\<open>cord[i]\<close> raises when \<open>i\<close> is out of range. Both drawing calls are in the loop body.
\<close>

fun plot_loop ::
  "nat \<Rightarrow> cord_row list \<Rightarrow> nat \<Rightarrow> nat \<Rightarrow> ref \<Rightarrow> nat list \<Rightarrow> state \<Rightarrow> py_error option \<times> state" where
  "plot_loop n cord x_shape y_shape frame [] s = (None, s)"
| "plot_loop n cord x_shape y_shape frame (i # rest) s =
     (if length cord \<le> i then (Some IndexError, s)
      else (case cord ! i of (a, b, c, d, _) \<Rightarrow>
        let x1 = to_pixel a x_shape; y1 = to_pixel b y_shape;
            x2 = to_pixel c x_shape; y2 = to_pixel d y_shape;
            bgr = (0, 0, 255);
            s1 = cv2_rectangle frame (x1, y1) (x2, y2) bgr 1 s;
            s2 = cv2_putText frame (label_text n) (30, 30) FONT_HERSHEY_SIMPLEX 1 (0, 255, 0) 2 s1
        in plot_loop n cord x_shape y_shape frame rest s2))"

definition plot_boxes :: "results \<Rightarrow> ref \<Rightarrow> state \<Rightarrow> (py_error + ref) \<times> state" where
  "plot_boxes results frame s =
     (case results of (labels, cord) \<Rightarrow>
        let n = length labels;
            x_shape = shape1 (heap s frame); y_shape = shape0 (heap s frame)
        in (case plot_loop n cord x_shape y_shape frame [0..<n] s of
              (Some e, s1) \<Rightarrow> (Inl e, s1)
            | (None, s1) \<Rightarrow> (Inr frame, cv2_imshow ''video'' frame s1)))"

text \<open>Lines 95 to 97: the configured rate, lowered to the source's rate when above it.\<close>

definition clamp_fps :: "real \<Rightarrow> real \<Rightarrow> real" where
  "clamp_fps CAM_FMS frame_rate = (if CAM_FMS > frame_rate then frame_rate else CAM_FMS)"

text \<open>The expression \<^verbatim>\<open>math.floor(frame_rate / fps)\<close> of line 107.\<close>

definition stride :: "real \<Rightarrow> real \<Rightarrow> py_error + int" where
  "stride frame_rate fps =
     (case truediv frame_rate fps of Inl e \<Rightarrow> Inl e | Inr q \<Rightarrow> math_floor q)"

text \<open>Lines 116 to 119: the regions built from the batch with the frame's own shape.\<close>

definition faces_of :: "cord_row list \<Rightarrow> ref \<Rightarrow> nat \<Rightarrow> nat \<Rightarrow> region list" where
  "faces_of cord frame x_shape y_shape =
     map (\<lambda>(a, b, c, d, _).
            let x1 = to_pixel a x_shape; y1 = to_pixel b y_shape;
                x2 = to_pixel c x_shape; y2 = to_pixel d y_shape
            in (frame, x1, y1, x2 - x1, y2 - y1)) cord"

text \<open>
  Lines 106 to 122: one pass through the loop body for the frame just read. The result
  is the exception that aborts the run, if any, and the state reached.
\<close>

definition loop_body ::
  "(image \<Rightarrow> detection list) \<Rightarrow> real \<Rightarrow> real \<Rightarrow> ref \<Rightarrow> state \<Rightarrow> py_error option \<times> state" where
  "loop_body model frame_rate fps frame s0 =
     (let s = s0\<lparr>current_frame := current_frame s0 + 1\<rparr> in
      case stride frame_rate fps of
        Inl e \<Rightarrow> (Some e, s)
      | Inr k \<Rightarrow>
         (case py_mod (current_frame s) k of
            Inl e \<Rightarrow> (Some e, s)
          | Inr m \<Rightarrow>
             if m \<noteq> 0 then (None, cv2_imshow ''video'' frame s)
             else
               (case score_frame model frame s of (results, s1) \<Rightarrow>
                 (case results of (_, cord) \<Rightarrow>
                    let x_shape = shape1 (heap s1 frame); y_shape = shape0 (heap s1 frame);
                        faces = faces_of cord frame x_shape y_shape;
                        s2 = logic faces (self_width s1) (self_height s1) s1
                    in (case plot_boxes results frame s2 of
                          (Inl e, s3) \<Rightarrow> (Some e, s3)
                        | (Inr _, s3) \<Rightarrow> (None, s3))))))"

text \<open>The \<^verbatim>\<open>while True\<close> loop over the frames the source still holds.\<close>

fun loop ::
  "(image \<Rightarrow> detection list) \<Rightarrow> real \<Rightarrow> real \<Rightarrow> image list \<Rightarrow> state \<Rightarrow> py_error option \<times> state" where
  "loop model frame_rate fps [] s = (None, emit (Read None) s)"
| "loop model frame_rate fps (img # rest) s =
     (case player_read img s of (frame, s1) \<Rightarrow>
        (case loop_body model frame_rate fps frame s1 of
           (Some e, s2) \<Rightarrow> (Some e, s2)
         | (None, s2) \<Rightarrow> loop model frame_rate fps rest s2))"

text \<open>
  \<^verbatim>\<open>__call__\<close>. \<open>CAM_FMS\<close> is the value of \<^verbatim>\<open>settings.CAM_FMS\<close>. The values of lines 92
  and 93 are overwritten before use.
\<close>

definition call ::
  "(image \<Rightarrow> detection list) \<Rightarrow> real \<Rightarrow> capture \<Rightarrow> state \<Rightarrow> py_error option \<times> state" where
  "call model CAM_FMS cap s0 =
     (case get_video_from_file cap (emit StartWindowThread s0) of (player, s1) \<Rightarrow>
        if \<not> opened player then (Some AssertionError, s1)
        else
          let frame_rate = prop_fps player;
              x_shape = py_int (prop_width player);
              y_shape = py_int (prop_height player);
              fps = clamp_fps CAM_FMS frame_rate;
              s2 = s1\<lparr>current_frame := 0\<rparr>
          in (case loop model frame_rate fps (stream player) s2 of
                (Some e, s3) \<Rightarrow> (Some e, s3)
              | (None, s3) \<Rightarrow>
                  (None, emit (WaitKey 10) (emit DestroyAllWindows (emit Release s3)))))"

text \<open>The object after \<^verbatim>\<open>__init__\<close>: nothing read, nothing recorded.\<close>

definition init_state :: state where
  "init_state =
     \<lparr>heap = (\<lambda>_. \<lparr>shape0 = 0, shape1 = 0, pixels = 0, drawn = []\<rparr>), fresh = 0, trace = [],
      self_width = 0, self_height = 0, current_frame = 0\<rparr>"

section \<open>Observations on a run\<close>

text \<open>The drawing calls that the loop of \<^verbatim>\<open>plot_boxes\<close> makes for the indices \<open>idxs\<close>.\<close>

definition box_draws :: "nat \<Rightarrow> cord_row list \<Rightarrow> nat \<Rightarrow> nat \<Rightarrow> nat list \<Rightarrow> draw list" where
  "box_draws n cord x_shape y_shape idxs =
     concat (map (\<lambda>i. case cord ! i of (a, b, c, d, _) \<Rightarrow>
        [Rectangle (to_pixel a x_shape, to_pixel b y_shape) (to_pixel c x_shape, to_pixel d y_shape)
           (0, 0, 255) 1,
         PutText (label_text n) (30, 30) FONT_HERSHEY_SIMPLEX 1 (0, 255, 0) 2]) idxs)"

text \<open>A sequence of drawing calls on one buffer, as a change of the state.\<close>

definition paint :: "ref \<Rightarrow> draw list \<Rightarrow> state \<Rightarrow> state" where
  "paint frame ds s =
     s\<lparr>heap := (heap s)(frame := (heap s frame)\<lparr>drawn := drawn (heap s frame) @ ds\<rparr>),
       trace := trace s @ map (Draw frame) ds\<rparr>"

text \<open>The drawing calls for a scored frame with content \<open>img\<close>.\<close>

definition rendered :: "(image \<Rightarrow> detection list) \<Rightarrow> image \<Rightarrow> draw list" where
  "rendered model img =
     box_draws (length (model img)) (other_columns (model img)) (shape1 img) (shape0 img)
       [0..<length (model img)]"

text \<open>
  The events of one loop iteration with stride \<open>k\<close>, for the frame \<open>img\<close> read as number \<open>c\<close>
  into buffer \<open>r\<close>, and of the whole loop; \<open>w\<close> and \<open>h\<close> are the stored width and height.
\<close>

definition frame_events ::
  "(image \<Rightarrow> detection list) \<Rightarrow> int \<Rightarrow> int \<Rightarrow> ref \<Rightarrow> image \<Rightarrow> real \<Rightarrow> real \<Rightarrow> event list" where
  "frame_events model k c r img w h =
     (if c mod k \<noteq> 0 then [Read (Some r), Imshow ''video'' r img]
      else [Read (Some r), Model r img,
            Logic (faces_of (other_columns (model img)) r (shape1 img) (shape0 img)) w h]
           @ map (Draw r) (rendered model img)
           @ [Imshow ''video'' r (img\<lparr>drawn := drawn img @ rendered model img\<rparr>)])"

fun loop_events ::
  "(image \<Rightarrow> detection list) \<Rightarrow> int \<Rightarrow> int \<Rightarrow> ref \<Rightarrow> image list \<Rightarrow> real \<Rightarrow> real \<Rightarrow> event list" where
  "loop_events model k c r [] w h = [Read None]"
| "loop_events model k c r (img # rest) w h =
     frame_events model k (c + 1) r img w h @ loop_events model k (c + 1) (Suc r) rest w h"

text \<open>Projections of a trace: the calls of one kind, in order.\<close>

definition model_calls :: "event list \<Rightarrow> (ref \<times> image) list" where
  "model_calls t = concat (map (\<lambda>e. case e of Model r img \<Rightarrow> [(r, img)] | _ \<Rightarrow> []) t)"

definition logic_calls :: "event list \<Rightarrow> (region list \<times> real \<times> real) list" where
  "logic_calls t = concat (map (\<lambda>e. case e of Logic faces w h \<Rightarrow> [(faces, w, h)] | _ \<Rightarrow> []) t)"

definition imshow_calls :: "event list \<Rightarrow> (string \<times> ref \<times> image) list" where
  "imshow_calls t = concat (map (\<lambda>e. case e of Imshow name r img \<Rightarrow> [(name, r, img)] | _ \<Rightarrow> []) t)"

definition read_calls :: "event list \<Rightarrow> ref option list" where
  "read_calls t = concat (map (\<lambda>e. case e of Read r \<Rightarrow> [r] | _ \<Rightarrow> []) t)"

definition draw_calls :: "event list \<Rightarrow> (ref \<times> draw) list" where
  "draw_calls t = concat (map (\<lambda>e. case e of Draw r d \<Rightarrow> [(r, d)] | _ \<Rightarrow> []) t)"

text \<open>
  The exception that line 107 raises for a value of the stride expression, if any: the one
  of the division or of \<^verbatim>\<open>math.floor\<close>, or that of \<^verbatim>\<open>%\<close> for a stride of 0.
\<close>

definition stride_raises :: "py_error + int \<Rightarrow> py_error option" where
  "stride_raises r =
     (case r of Inl e \<Rightarrow> Some e | Inr k \<Rightarrow> if k = 0 then Some ZeroDivisionError else None)"

fun is_rectangle :: "draw \<Rightarrow> bool" where
  "is_rectangle (Rectangle p1 p2 bgr thickness) = True"
| "is_rectangle (PutText txt org font scale colr thickness) = False"

section \<open>Sample inputs\<close>

definition sample_frame :: "nat \<Rightarrow> image" where
  "sample_frame n = \<lparr>shape0 = 480, shape1 = 640, pixels = n, drawn = []\<rparr>"

definition sample_capture :: "real \<Rightarrow> image list \<Rightarrow> capture" where
  "sample_capture rate fs =
     \<lparr>opened = True, prop_width = 640, prop_height = 480, prop_fps = rate, stream = fs\<rparr>"

definition unopened_capture :: capture where
  "unopened_capture =
     \<lparr>opened = False, prop_width = 0, prop_height = 0, prop_fps = 0, stream = []\<rparr>"

definition no_target :: "image \<Rightarrow> detection list" where
  "no_target img = []"

definition one_target :: "image \<Rightarrow> detection list" where
  "one_target img = [\<lparr>x1n = 1/4, y1n = 1/2, x2n = 7/8, y2n = 1, conf = 9/10, cls = 0\<rparr>]"

definition target_in_first :: "image \<Rightarrow> detection list" where
  "target_in_first img = (if pixels img = 0 then one_target img else [])"

section \<open>Lemmas on the float arithmetic\<close>

lemmas float_eval =
  float32_def float64_def round_float_def exponent_def pow2_def round_half_even_def
  compute_bitlen Let_def

text \<open>
  \<open>exponent\<close> is the binary exponent of a positive number, and \<open>round_float\<close> gives a
  multiple of the spacing at that exponent that is at most half a spacing away.
\<close>

lemma pow2_nat: "0 \<le> k \<Longrightarrow> pow2 k = 2 ^ nat k"
  by (simp add: pow2_def)

lemma pow2_neg: "0 \<le> k \<Longrightarrow> pow2 (- k) = 1 / 2 ^ nat k"
  by (cases "k = 0") (simp_all add: pow2_def)

lemma exponent_bounds:
  assumes "0 < x"
  shows "pow2 (exponent x) \<le> x" and "x < pow2 (exponent x + 1)"
proof -
  show "pow2 (exponent x) \<le> x"
  proof (cases "1 \<le> x")
    case True
    then have n: "0 < \<lfloor>x\<rfloor>" by linarith
    from bitlen_bounds [OF n] have "2 ^ nat (bitlen \<lfloor>x\<rfloor> - 1) \<le> \<lfloor>x\<rfloor>" by simp
    then have "(2::real) ^ nat (bitlen \<lfloor>x\<rfloor> - 1) \<le> real_of_int \<lfloor>x\<rfloor>"
      by (metis of_int_le_iff of_int_numeral of_int_power)
    also have "\<dots> \<le> x" by simp
    finally have "(2::real) ^ nat (bitlen \<lfloor>x\<rfloor> - 1) \<le> x" .
    moreover from n have "1 \<le> bitlen \<lfloor>x\<rfloor>"
      using bitlen_eq_zero_iff [of "\<lfloor>x\<rfloor>"] bitlen_nonneg [of "\<lfloor>x\<rfloor>"] by linarith
    ultimately show ?thesis
      using True by (simp add: exponent_def pow2_nat)
  next
    case False
    define N where "N = \<lceil>1 / x\<rceil>"
    from False assms have y: "1 < 1 / x" by simp
    then have N: "0 < N - 1" unfolding N_def by linarith
    from bitlen_bounds [OF N] have "N - 1 < 2 ^ nat (bitlen (N - 1))" by simp
    then have "N \<le> 2 ^ nat (bitlen (N - 1))" by simp
    then have "real_of_int N \<le> 2 ^ nat (bitlen (N - 1))"
      by (metis of_int_le_iff of_int_numeral of_int_power)
    moreover have "1 / x \<le> real_of_int N" unfolding N_def by simp
    ultimately have "1 / x \<le> 2 ^ nat (bitlen (N - 1))" by linarith
    with assms have "1 / 2 ^ nat (bitlen (N - 1)) \<le> x"
      by (simp add: field_simps)
    with False show ?thesis
      by (simp add: exponent_def N_def [symmetric] pow2_neg bitlen_nonneg)
  qed
  show "x < pow2 (exponent x + 1)"
  proof (cases "1 \<le> x")
    case True
    then have n: "0 < \<lfloor>x\<rfloor>" by linarith
    from bitlen_bounds [OF n] have "\<lfloor>x\<rfloor> + 1 \<le> 2 ^ nat (bitlen \<lfloor>x\<rfloor>)" by simp
    then have "real_of_int (\<lfloor>x\<rfloor> + 1) \<le> 2 ^ nat (bitlen \<lfloor>x\<rfloor>)"
      by (metis of_int_le_iff of_int_numeral of_int_power)
    moreover have "x < real_of_int (\<lfloor>x\<rfloor> + 1)" by linarith
    ultimately have "x < 2 ^ nat (bitlen \<lfloor>x\<rfloor>)" by linarith
    with True show ?thesis
      by (simp add: exponent_def pow2_nat bitlen_nonneg)
  next
    case False
    define N where "N = \<lceil>1 / x\<rceil>"
    from False assms have y: "1 < 1 / x" by simp
    then have N: "0 < N - 1" unfolding N_def by linarith
    from N have b: "1 \<le> bitlen (N - 1)"
      using bitlen_eq_zero_iff [of "N - 1"] bitlen_nonneg [of "N - 1"] by linarith
    from bitlen_bounds [OF N] have "2 ^ nat (bitlen (N - 1) - 1) \<le> N - 1" by simp
    then have "(2::real) ^ nat (bitlen (N - 1) - 1) \<le> real_of_int (N - 1)"
      by (metis of_int_le_iff of_int_numeral of_int_power)
    moreover have "real_of_int (N - 1) < 1 / x" unfolding N_def by linarith
    ultimately have "(2::real) ^ nat (bitlen (N - 1) - 1) < 1 / x" by linarith
    with assms have "x < 1 / 2 ^ nat (bitlen (N - 1) - 1)"
      by (simp add: field_simps)
    moreover have "pow2 (- bitlen (N - 1) + 1) = 1 / 2 ^ nat (bitlen (N - 1) - 1)"
      using pow2_neg [of "bitlen (N - 1) - 1"] b by simp
    ultimately show ?thesis
      using False by (simp add: exponent_def N_def [symmetric])
  qed
qed

lemma round_half_even_nearest: "\<bar>real_of_int (round_half_even x) - x\<bar> \<le> 1/2"
  unfolding round_half_even_def Let_def by (simp; linarith)

lemma pow2_pos: "0 < pow2 k"
  by (simp add: pow2_def)

lemma round_float_nearest:
  assumes "x \<noteq> 0"
  shows "\<bar>round_float p emin x - x\<bar> \<le> pow2 (max (exponent \<bar>x\<bar>) emin - int p + 1) / 2"
proof -
  define q where "q = pow2 (max (exponent \<bar>x\<bar>) emin - int p + 1)"
  have r: "round_float p emin x = real_of_int (round_half_even (x / q)) * q"
    using assms(1) by (simp add: round_float_def Let_def q_def)
  have q: "0 < q" unfolding q_def by (rule pow2_pos)
  have "real_of_int (round_half_even (x / q)) * q - x
      = (real_of_int (round_half_even (x / q)) - x / q) * q"
    using q by (simp add: left_diff_distrib)
  then have "\<bar>real_of_int (round_half_even (x / q)) * q - x\<bar>
      = \<bar>real_of_int (round_half_even (x / q)) - x / q\<bar> * q"
    using q by (simp only: abs_mult abs_of_pos)
  also have "\<dots> \<le> 1/2 * q"
    using round_half_even_nearest [of "x / q"] q by (simp add: mult_right_mono)
  finally show ?thesis
    unfolding r q_def by simp
qed

lemma float64_values: "float64 0 = 0" "float64 1 = 1" "float64 2 = 2" "float64 3 = 3"
  by (simp_all add: float_eval)

text \<open>
  Rounding is seen where the exact result is not a float: the double nearest to 1/5 is a
  little above it, so 1 divided by it is below 5 and rounds to 5; the single precision
  value nearest to 7/10 times 10 is below 7 and rounds to 7.
\<close>

lemma float_rounding_examples:
  "float64 (1/5) = 3602879701896397 / 2 ^ 54"
  "float64 (1 / (3602879701896397 / 2 ^ 54)) = 5"
  "float32 (7/10) = 11744051 / 2 ^ 24"
  "float32 (11744051 / 2 ^ 24 * 10) = 7"
  by (simp_all add: float_eval)

lemma py_int_truncates:
  "real_of_int (py_int x) = sgn x * real_of_int \<lfloor>\<bar>x\<bar>\<rfloor>"
  "\<bar>real_of_int (py_int x)\<bar> \<le> \<bar>x\<bar>"
  "\<bar>x\<bar> < \<bar>real_of_int (py_int x)\<bar> + 1"
proof -
  show 1: "real_of_int (py_int x) = sgn x * real_of_int \<lfloor>\<bar>x\<bar>\<rfloor>"
  proof (cases "0 \<le> x")
    case True
    then show ?thesis
      by (cases "x = 0") (simp_all add: py_int_def sgn_if)
  next
    case False
    then show ?thesis
      by (simp add: py_int_def sgn_if ceiling_def)
  qed
  have f: "0 \<le> real_of_int \<lfloor>\<bar>x\<bar>\<rfloor>" "real_of_int \<lfloor>\<bar>x\<bar>\<rfloor> \<le> \<bar>x\<bar>"
    by simp_all
  have g: "\<bar>x\<bar> < real_of_int \<lfloor>\<bar>x\<bar>\<rfloor> + 1"
    by linarith
  have a: "\<bar>real_of_int (py_int x)\<bar> = (if x = 0 then 0 else real_of_int \<lfloor>\<bar>x\<bar>\<rfloor>)"
    unfolding 1 using f(1) by (simp add: abs_mult sgn_if)
  show "\<bar>real_of_int (py_int x)\<bar> \<le> \<bar>x\<bar>"
    unfolding a using f(2) by simp
  show "\<bar>x\<bar> < \<bar>real_of_int (py_int x)\<bar> + 1"
    unfolding a using g by simp
qed

lemma to_pixel_samples:
  "to_pixel (1/4) 640 = 160" "to_pixel (1/2) 480 = 240" "to_pixel (7/8) 640 = 560"
  "to_pixel 1 480 = 480" "to_pixel (7/8) 2 = 1" "to_pixel (1/2) 2 = 1"
  "to_pixel (- (3/4)) 2 = - 1" "to_pixel (11744051 / 16777216) 10 = 7"
  by (simp_all add: to_pixel_def mul_float32_def py_int_def float_eval)

lemma stride_zero_divisor: "stride frame_rate 0 = Inl ZeroDivisionError"
  by (simp add: stride_def truediv_def math_floor_def float64_values)

lemma stride_zero_rate: "fps \<noteq> 0 \<Longrightarrow> stride 0 fps = Inr 0"
  by (simp add: stride_def truediv_def math_floor_def float64_values)

lemma stride_same: "frame_rate \<noteq> 0 \<Longrightarrow> stride frame_rate frame_rate = Inr 1"
  by (simp add: stride_def truediv_def math_floor_def float64_values)

lemma stride_samples: "stride 30 10 = Inr 3" "stride 20 10 = Inr 2"
  by (simp_all add: stride_def truediv_def math_floor_def float64_values)

text \<open>The quotient is rounded before the floor: rate 1 and the double nearest to 1/5.\<close>

lemma stride_rounds: "stride 1 (3602879701896397 / 2 ^ 54) = Inr 5"
  by (simp add: stride_def truediv_def math_floor_def float_eval)

text \<open>A quotient beyond the doubles is an infinity, on which \<^verbatim>\<open>math.floor\<close> raises.\<close>

lemma stride_overflows: "stride (2 ^ 1023) (1/2) = Inl OverflowError"
  by (simp add: stride_def truediv_def math_floor_def float_eval)

lemma stride_raises_None: "stride_raises r = None \<longleftrightarrow> (\<exists>k. r = Inr k \<and> k \<noteq> 0)"
  by (cases r) (simp_all add: stride_raises_def)

lemma stride_raises_Some:
  "stride_raises (stride frame_rate fps) = Some e \<Longrightarrow> e = ZeroDivisionError \<or> e = OverflowError"
  by (auto simp: stride_raises_def stride_def truediv_def math_floor_def
      split: sum.splits if_splits)

section \<open>Lemmas on the renderer\<close>

lemma paint_Nil: "paint frame [] s = s"
  by (simp add: paint_def)

lemma paint_paint: "paint frame ds2 (paint frame ds1 s) = paint frame (ds1 @ ds2) s"
  by (simp add: paint_def)

lemma draw_on_paint: "draw_on frame d s = paint frame [d] s"
  by (simp add: draw_on_def paint_def emit_def)

lemma plot_loop_paint:
  "\<forall>i\<in>set idxs. i < length cord \<Longrightarrow>
   plot_loop n cord xs ys frame idxs s = (None, paint frame (box_draws n cord xs ys idxs) s)"
proof (induction idxs arbitrary: s)
  case Nil
  show ?case by (simp add: box_draws_def paint_Nil)
next
  case (Cons i rest)
  obtain a b c d e where row: "cord ! i = (a, b, c, d, e)"
    by (cases "cord ! i") auto
  from Cons.prems have i: "i < length cord" and rest: "\<forall>j\<in>set rest. j < length cord"
    by simp_all
  have split: "box_draws n cord xs ys (i # rest) =
      [Rectangle (to_pixel a xs, to_pixel b ys) (to_pixel c xs, to_pixel d ys) (0, 0, 255) 1,
       PutText (label_text n) (30, 30) FONT_HERSHEY_SIMPLEX 1 (0, 255, 0) 2]
      @ box_draws n cord xs ys rest"
    by (simp add: box_draws_def row)
  show ?case
    using i by (simp add: row Cons.IH [OF rest] cv2_rectangle_def cv2_putText_def
        draw_on_paint paint_paint split)
qed

lemma plot_boxes_paint:
  "length labels \<le> length cord \<Longrightarrow>
   plot_boxes (labels, cord) frame s =
     (Inr frame,
      cv2_imshow ''video'' frame
        (paint frame (box_draws (length labels) cord (shape1 (heap s frame)) (shape0 (heap s frame))
                        [0..<length labels]) s))"
  by (simp add: plot_boxes_def Let_def plot_loop_paint)

lemma length_box_draws: "length (box_draws n cord xs ys idxs) = 2 * length idxs"
  by (induction idxs) (simp_all add: box_draws_def split: prod.splits)

text \<open>The drawing calls of a whole batch, row by row.\<close>

lemma box_draws_rows:
  "box_draws n cord xs ys [0..<length cord] =
     concat (map (\<lambda>(a, b, c, d, _).
        [Rectangle (to_pixel a xs, to_pixel b ys) (to_pixel c xs, to_pixel d ys) (0, 0, 255) 1,
         PutText (label_text n) (30, 30) FONT_HERSHEY_SIMPLEX 1 (0, 255, 0) 2]) cord)"
proof -
  have "map (\<lambda>i. f (cord ! i)) [0..<length cord] = map f (map ((!) cord) [0..<length cord])"
    for f :: "cord_row \<Rightarrow> draw list"
    by (simp only: map_map o_def)
  then have "map (\<lambda>i. f (cord ! i)) [0..<length cord] = map f cord"
    for f :: "cord_row \<Rightarrow> draw list"
    by (simp only: map_nth)
  then show ?thesis
    by (simp add: box_draws_def)
qed

lemma rendered_rows:
  "rendered model img =
     concat (map (\<lambda>(a, b, c, d, _).
        [Rectangle (to_pixel a (shape1 img), to_pixel b (shape0 img))
           (to_pixel c (shape1 img), to_pixel d (shape0 img)) (0, 0, 255) 1,
         PutText (label_text (length (model img))) (30, 30) FONT_HERSHEY_SIMPLEX 1 (0, 255, 0) 2])
       (other_columns (model img)))"
  using box_draws_rows [of "length (model img)" "other_columns (model img)"]
  by (simp add: rendered_def other_columns_def)

text \<open>The two lists that \<^verbatim>\<open>score_frame\<close> returns have the same length.\<close>

lemma score_frame_lengths:
  "length (fst (fst (score_frame model frame s))) = length (snd (fst (score_frame model frame s)))"
  by (simp add: score_frame_def Let_def last_column_def other_columns_def)

section \<open>Lemmas on the main loop\<close>

lemma loop_body_run:
  assumes k: "stride frame_rate fps = Inr k" "k \<noteq> 0"
  shows "\<exists>s'. loop_body model frame_rate fps frame s = (None, s')
     \<and> trace s' = trace s @ tl (frame_events model k (current_frame s + 1) frame (heap s frame)
                              (self_width s) (self_height s))
     \<and> current_frame s' = current_frame s + 1 \<and> fresh s' = fresh s
     \<and> self_width s' = self_width s \<and> self_height s' = self_height s"
  using k
  by (simp add: loop_body_def Let_def py_mod_def score_frame_def logic_def plot_boxes_paint
      frame_events_def rendered_def cv2_imshow_def emit_def paint_def last_column_def
      other_columns_def)

lemma loop_body_abort:
  assumes "stride_raises (stride frame_rate fps) = Some e"
  shows "loop_body model frame_rate fps frame s
     = (Some e, s\<lparr>current_frame := current_frame s + 1\<rparr>)"
  using assms
  by (auto simp: loop_body_def Let_def py_mod_def stride_raises_def split: sum.splits if_splits)

lemma loop_run:
  assumes k: "stride frame_rate fps = Inr k" "k \<noteq> 0"
  shows "\<exists>s'. loop model frame_rate fps fs s = (None, s')
     \<and> trace s' = trace s @ loop_events model k (current_frame s) (fresh s) fs
                              (self_width s) (self_height s)
     \<and> current_frame s' = current_frame s + int (length fs)
     \<and> self_width s' = self_width s \<and> self_height s' = self_height s"
proof (induction fs arbitrary: s)
  case Nil
  show ?case by (simp add: emit_def)
next
  case (Cons img rest)
  define s1 where "s1 = snd (player_read img s)"
  have rd: "player_read img s = (fresh s, s1)"
    by (simp add: s1_def player_read_def)
  have s1: "trace s1 = trace s @ [Read (Some (fresh s))]" "heap s1 (fresh s) = img"
    "current_frame s1 = current_frame s" "fresh s1 = Suc (fresh s)"
    "self_width s1 = self_width s" "self_height s1 = self_height s"
    by (simp_all add: s1_def player_read_def emit_def)
  from loop_body_run [OF k, of model "fresh s" s1]
  obtain s2 where s2: "loop_body model frame_rate fps (fresh s) s1 = (None, s2)"
    "trace s2 = trace s1 @ tl (frame_events model k (current_frame s1 + 1) (fresh s)
        (heap s1 (fresh s)) (self_width s1) (self_height s1))"
    "current_frame s2 = current_frame s1 + 1" "fresh s2 = fresh s1"
    "self_width s2 = self_width s1" "self_height s2 = self_height s1"
    by blast
  from Cons.IH [of s2]
  obtain s' where s': "loop model frame_rate fps rest s2 = (None, s')"
    "trace s' = trace s2 @ loop_events model k (current_frame s2) (fresh s2) rest
        (self_width s2) (self_height s2)"
    "current_frame s' = current_frame s2 + int (length rest)"
    "self_width s' = self_width s2" "self_height s' = self_height s2"
    by blast
  have hd: "frame_events model k c (fresh s) img w h
      = Read (Some (fresh s)) # tl (frame_events model k c (fresh s) img w h)" for c w h
    by (simp add: frame_events_def)
  have "trace s' = trace s @ loop_events model k (current_frame s) (fresh s) (img # rest)
      (self_width s) (self_height s)"
    using hd [of "current_frame s + 1" "self_width s" "self_height s"]
    by (simp add: s' s2 s1)
  then show ?case
    by (simp add: rd s2 s' s1)
qed

lemma loop_abort:
  assumes "stride_raises (stride frame_rate fps) = Some e"
  shows "loop model frame_rate fps (img # rest) s
     = (Some e, (snd (player_read img s))\<lparr>current_frame := current_frame s + 1\<rparr>)"
  using loop_body_abort [OF assms]
  by (simp add: player_read_def emit_def)

text \<open>The whole run with a usable stride.\<close>

lemma call_run:
  assumes "opened cap"
    and "stride (prop_fps cap) (clamp_fps CAM_FMS (prop_fps cap)) = Inr k" and "k \<noteq> 0"
  shows "fst (call model CAM_FMS cap s) = None"
    and "trace (snd (call model CAM_FMS cap s)) =
           trace s @ StartWindowThread #
             loop_events model k 0 (fresh s) (stream cap) (prop_width cap) (prop_height cap)
             @ [Release, DestroyAllWindows, WaitKey 10]"
    and "current_frame (snd (call model CAM_FMS cap s)) = int (length (stream cap))"
proof -
  define s2 where "s2 = (emit StartWindowThread s)
      \<lparr>self_width := prop_width cap, self_height := prop_height cap, current_frame := 0\<rparr>"
  from loop_run [OF assms(2,3), of model "stream cap" s2]
  obtain s' where s': "loop model (prop_fps cap) (clamp_fps CAM_FMS (prop_fps cap)) (stream cap) s2
        = (None, s')"
    "trace s' = trace s2 @ loop_events model k (current_frame s2) (fresh s2) (stream cap)
        (self_width s2) (self_height s2)"
    "current_frame s' = current_frame s2 + int (length (stream cap))"
    by blast
  have c: "call model CAM_FMS cap s
      = (None, emit (WaitKey 10) (emit DestroyAllWindows (emit Release s')))"
    using assms(1) s'(1) by (simp add: call_def get_video_from_file_def Let_def s2_def)
  show "fst (call model CAM_FMS cap s) = None"
    by (simp add: c)
  show "trace (snd (call model CAM_FMS cap s)) =
           trace s @ StartWindowThread #
             loop_events model k 0 (fresh s) (stream cap) (prop_width cap) (prop_height cap)
             @ [Release, DestroyAllWindows, WaitKey 10]"
    by (simp add: c s' emit_def s2_def)
  show "current_frame (snd (call model CAM_FMS cap s)) = int (length (stream cap))"
    by (simp add: c s' emit_def s2_def)
qed

lemma call_abort:
  assumes "opened cap" and "stream cap = img # rest"
    and "stride_raises (stride (prop_fps cap) (clamp_fps CAM_FMS (prop_fps cap))) = Some e"
  shows "fst (call model CAM_FMS cap s) = Some e"
    and "trace (snd (call model CAM_FMS cap s))
           = trace s @ [StartWindowThread, Read (Some (fresh s))]"
proof -
  define s2 where "s2 = (emit StartWindowThread s)
      \<lparr>self_width := prop_width cap, self_height := prop_height cap, current_frame := 0\<rparr>"
  have l: "loop model (prop_fps cap) (clamp_fps CAM_FMS (prop_fps cap)) (stream cap) s2
      = (Some e, (snd (player_read img s2))\<lparr>current_frame := current_frame s2 + 1\<rparr>)"
    unfolding assms(2) by (rule loop_abort [OF assms(3)])
  have c: "call model CAM_FMS cap s
      = (Some e, (snd (player_read img s2))\<lparr>current_frame := current_frame s2 + 1\<rparr>)"
    using assms(1) l by (simp add: call_def get_video_from_file_def Let_def s2_def)
  show "fst (call model CAM_FMS cap s) = Some e"
    by (simp add: c)
  show "trace (snd (call model CAM_FMS cap s))
           = trace s @ [StartWindowThread, Read (Some (fresh s))]"
    by (simp add: c s2_def player_read_def emit_def)
qed

lemma call_unopened:
  "\<not> opened cap \<Longrightarrow>
   call model CAM_FMS cap s =
     (Some AssertionError,
      (emit StartWindowThread s)\<lparr>self_width := prop_width cap, self_height := prop_height cap\<rparr>)"
  by (simp add: call_def get_video_from_file_def)

lemma call_empty:
  assumes "opened cap" and "stream cap = []"
  shows "fst (call model CAM_FMS cap s) = None"
    and "trace (snd (call model CAM_FMS cap s))
           = trace s @ [StartWindowThread, Read None, Release, DestroyAllWindows, WaitKey 10]"
  using assms by (simp_all add: call_def get_video_from_file_def Let_def emit_def)

section \<open>Projections of the loop's events\<close>

lemma model_calls_append: "model_calls (t @ u) = model_calls t @ model_calls u"
  by (simp add: model_calls_def)

lemma logic_calls_append: "logic_calls (t @ u) = logic_calls t @ logic_calls u"
  by (simp add: logic_calls_def)

lemma imshow_calls_append: "imshow_calls (t @ u) = imshow_calls t @ imshow_calls u"
  by (simp add: imshow_calls_def)

lemma read_calls_append: "read_calls (t @ u) = read_calls t @ read_calls u"
  by (simp add: read_calls_def)

lemma calls_Draw:
  "model_calls (map (Draw r) ds) = []" "logic_calls (map (Draw r) ds) = []"
  "imshow_calls (map (Draw r) ds) = []" "read_calls (map (Draw r) ds) = []"
  by (induction ds) (simp_all add: model_calls_def logic_calls_def imshow_calls_def read_calls_def)

lemma model_calls_frame:
  "model_calls (frame_events model k c r img w h) = (if c mod k = 0 then [(r, img)] else [])"
  by (simp add: frame_events_def model_calls_append calls_Draw) (simp add: model_calls_def)

lemma logic_calls_frame:
  "logic_calls (frame_events model k c r img w h) =
     (if c mod k = 0
      then [(faces_of (other_columns (model img)) r (shape1 img) (shape0 img), w, h)] else [])"
  by (simp add: frame_events_def logic_calls_append calls_Draw) (simp add: logic_calls_def)

lemma imshow_calls_frame:
  "imshow_calls (frame_events model k c r img w h) =
     [(''video'', r,
       if c mod k \<noteq> 0 then img else img\<lparr>drawn := drawn img @ rendered model img\<rparr>)]"
  by (simp add: frame_events_def imshow_calls_append calls_Draw) (simp add: imshow_calls_def)

lemma read_calls_frame: "read_calls (frame_events model k c r img w h) = [Some r]"
  by (simp add: frame_events_def read_calls_append calls_Draw) (simp add: read_calls_def)

lemma upt_0_Suc: "[0..<Suc n] = 0 # map Suc [0..<n]"
  by (simp add: upt_conv_Cons map_Suc_upt del: upt_Suc)

lemma model_calls_loop:
  "model_calls (loop_events model k c r fs w h) =
     map (\<lambda>i. (r + i, fs ! i)) (filter (\<lambda>i. (c + 1 + int i) mod k = 0) [0..<length fs])"
proof (induction fs arbitrary: c r)
  case Nil
  show ?case by (simp add: model_calls_def)
next
  case (Cons img rest)
  show ?case
    by (simp add: model_calls_append model_calls_frame Cons.IH upt_0_Suc filter_map o_def
        add.commute add.left_commute del: upt_Suc)
qed

lemma logic_calls_loop:
  "logic_calls (loop_events model k c r fs w h) =
     map (\<lambda>(r, img). (faces_of (other_columns (model img)) r (shape1 img) (shape0 img), w, h))
       (model_calls (loop_events model k c r fs w h))"
proof (induction fs arbitrary: c r)
  case Nil
  show ?case by (simp add: model_calls_def logic_calls_def)
next
  case (Cons img rest)
  show ?case
    by (simp add: model_calls_append model_calls_frame logic_calls_append logic_calls_frame Cons.IH)
qed

lemma imshow_calls_loop:
  "imshow_calls (loop_events model k c r fs w h) =
     map (\<lambda>i. (''video'', r + i,
                if (c + 1 + int i) mod k \<noteq> 0 then fs ! i
                else (fs ! i)\<lparr>drawn := drawn (fs ! i) @ rendered model (fs ! i)\<rparr>))
       [0..<length fs]"
proof (induction fs arbitrary: c r)
  case Nil
  show ?case by (simp add: imshow_calls_def)
next
  case (Cons img rest)
  show ?case
    by (simp add: imshow_calls_append imshow_calls_frame Cons.IH upt_0_Suc o_def
        add.commute add.left_commute del: upt_Suc)
qed

lemma read_calls_loop:
  "read_calls (loop_events model k c r fs w h) = map (\<lambda>i. Some (r + i)) [0..<length fs] @ [None]"
proof (induction fs arbitrary: c r)
  case Nil
  show ?case by (simp add: read_calls_def)
next
  case (Cons img rest)
  show ?case
    by (simp add: read_calls_append read_calls_frame Cons.IH upt_0_Suc o_def del: upt_Suc)
qed

lemma calls_single:
  "model_calls [StartWindowThread] = []" "model_calls [Release, DestroyAllWindows, WaitKey n] = []"
  "logic_calls [StartWindowThread] = []" "logic_calls [Release, DestroyAllWindows, WaitKey n] = []"
  "imshow_calls [StartWindowThread] = []" "imshow_calls [Release, DestroyAllWindows, WaitKey n] = []"
  "read_calls [StartWindowThread] = []" "read_calls [Release, DestroyAllWindows, WaitKey n] = []"
  by (simp_all add: model_calls_def logic_calls_def imshow_calls_def read_calls_def)

text \<open>The four ways a run can go.\<close>

lemma call_cases [case_names unopened empty abort run]:
  obtains "\<not> opened cap"
  | "opened cap" and "stream cap = []"
  | e img rest where "opened cap" and "stream cap = img # rest"
      and "stride_raises (stride (prop_fps cap) (clamp_fps CAM_FMS (prop_fps cap))) = Some e"
  | k where "opened cap"
      and "stride (prop_fps cap) (clamp_fps CAM_FMS (prop_fps cap)) = Inr k" and "k \<noteq> 0"
proof (cases "opened cap")
  case False
  then show ?thesis by (rule that(1))
next
  case True
  show ?thesis
  proof (cases "stride_raises (stride (prop_fps cap) (clamp_fps CAM_FMS (prop_fps cap)))")
    case None
    then obtain k where "stride (prop_fps cap) (clamp_fps CAM_FMS (prop_fps cap)) = Inr k" "k \<noteq> 0"
      by (auto simp: stride_raises_None)
    with True show ?thesis by (rule that(4))
  next
    case (Some e)
    show ?thesis
    proof (cases "stream cap")
      case Nil
      with True show ?thesis by (rule that(2))
    next
      case (Cons img rest)
      from True Cons Some show ?thesis by (rule that(3))
    qed
  qed
qed

lemma call_run_calls:
  assumes "opened cap"
    and "stride (prop_fps cap) (clamp_fps CAM_FMS (prop_fps cap)) = Inr k" and "k \<noteq> 0"
  shows "model_calls (trace (snd (call model CAM_FMS cap init_state))) =
      model_calls (loop_events model k 0 0 (stream cap) (prop_width cap) (prop_height cap))"
    and "logic_calls (trace (snd (call model CAM_FMS cap init_state))) =
      logic_calls (loop_events model k 0 0 (stream cap) (prop_width cap) (prop_height cap))"
    and "imshow_calls (trace (snd (call model CAM_FMS cap init_state))) =
      imshow_calls (loop_events model k 0 0 (stream cap) (prop_width cap) (prop_height cap))"
    and "read_calls (trace (snd (call model CAM_FMS cap init_state))) =
      read_calls (loop_events model k 0 0 (stream cap) (prop_width cap) (prop_height cap))"
proof -
  define evs where "evs = loop_events model k 0 0 (stream cap) (prop_width cap) (prop_height cap)"
  have t: "trace (snd (call model CAM_FMS cap init_state))
      = [StartWindowThread] @ evs @ [Release, DestroyAllWindows, WaitKey 10]"
    using call_run(2) [OF assms, of model init_state]
    by (simp add: init_state_def evs_def)
  show "model_calls (trace (snd (call model CAM_FMS cap init_state))) =
      model_calls (loop_events model k 0 0 (stream cap) (prop_width cap) (prop_height cap))"
    and "logic_calls (trace (snd (call model CAM_FMS cap init_state))) =
      logic_calls (loop_events model k 0 0 (stream cap) (prop_width cap) (prop_height cap))"
    and "imshow_calls (trace (snd (call model CAM_FMS cap init_state))) =
      imshow_calls (loop_events model k 0 0 (stream cap) (prop_width cap) (prop_height cap))"
    and "read_calls (trace (snd (call model CAM_FMS cap init_state))) =
      read_calls (loop_events model k 0 0 (stream cap) (prop_width cap) (prop_height cap))"
    unfolding evs_def [symmetric]
    by (simp_all only: t model_calls_append logic_calls_append imshow_calls_append
        read_calls_append calls_single append_Nil append_Nil2)
qed

lemma call_abort_calls:
  assumes "opened cap" and "stream cap = img # rest"
    and "stride_raises (stride (prop_fps cap) (clamp_fps CAM_FMS (prop_fps cap))) = Some e"
  shows "model_calls (trace (snd (call model CAM_FMS cap init_state))) = []"
    and "logic_calls (trace (snd (call model CAM_FMS cap init_state))) = []"
    and "imshow_calls (trace (snd (call model CAM_FMS cap init_state))) = []"
    and "read_calls (trace (snd (call model CAM_FMS cap init_state))) = [Some 0]"
  unfolding call_abort(2) [OF assms]
  by (simp_all add: init_state_def model_calls_def logic_calls_def imshow_calls_def read_calls_def)

lemma call_empty_calls:
  assumes "opened cap" and "stream cap = []"
  shows "model_calls (trace (snd (call model CAM_FMS cap init_state))) = []"
    and "logic_calls (trace (snd (call model CAM_FMS cap init_state))) = []"
    and "imshow_calls (trace (snd (call model CAM_FMS cap init_state))) = []"
    and "read_calls (trace (snd (call model CAM_FMS cap init_state))) = [None]"
  unfolding call_empty(2) [OF assms]
  by (simp_all add: init_state_def model_calls_def logic_calls_def imshow_calls_def read_calls_def)

lemma call_logic_calls:
  "logic_calls (trace (snd (call model CAM_FMS cap init_state))) =
     map (\<lambda>(r, img). (faces_of (other_columns (model img)) r (shape1 img) (shape0 img),
                       prop_width cap, prop_height cap))
       (model_calls (trace (snd (call model CAM_FMS cap init_state))))"
proof (cases rule: call_cases [where cap = cap and CAM_FMS = CAM_FMS])
  case unopened
  then show ?thesis
    by (simp add: call_unopened emit_def init_state_def model_calls_def logic_calls_def)
next
  case empty
  then show ?thesis
    by (simp add: call_empty_calls)
next
  case (abort e img rest)
  then show ?thesis
    by (simp add: call_abort_calls(1,2) [OF abort])
next
  case (run k)
  show ?thesis
    by (simp only: call_run_calls(1,2) [OF run] logic_calls_loop)
qed

text \<open>No buffer is given to the detector twice.\<close>

lemma call_model_calls_distinct:
  "distinct (map fst (model_calls (trace (snd (call model CAM_FMS cap init_state)))))"
proof (cases rule: call_cases [where cap = cap and CAM_FMS = CAM_FMS])
  case unopened
  then show ?thesis
    by (simp add: call_unopened emit_def init_state_def model_calls_def)
next
  case empty
  then show ?thesis
    by (simp add: call_empty_calls)
next
  case (abort e img rest)
  then show ?thesis
    by (simp add: call_abort_calls(1) [OF abort])
next
  case (run k)
  have "distinct (map fst (map (\<lambda>i. (i, stream cap ! i)) xs)) = distinct xs" for xs
    by (simp add: o_def)
  then show ?thesis
    by (simp only: call_run_calls(1) [OF run] model_calls_loop add_0) simp
qed

text \<open>
  A complete run evaluated from the definitions alone: target rate 10 on a source of rate 20
  with two frames and one detection per scored frame. The first frame is only displayed,
  the second is scored, handed to the callback, drawn on and displayed.
\<close>

lemma sample_run:
  "call one_target 10 (sample_capture 20 [sample_frame 0, sample_frame 1]) init_state
   = (None,
      \<lparr>heap = (\<lambda>_. \<lparr>shape0 = 0, shape1 = 0, pixels = 0, drawn = []\<rparr>)
          (0 := sample_frame 0,
           1 := (sample_frame 1)\<lparr>drawn :=
             [Rectangle (160, 240) (560, 480) (0, 0, 255) 1,
              PutText ''Total Targets: 1'' (30, 30) 0 1 (0, 255, 0) 2]\<rparr>),
       fresh = 2,
       trace =
         [StartWindowThread,
          Read (Some 0), Imshow ''video'' 0 (sample_frame 0),
          Read (Some 1), Model 1 (sample_frame 1), Logic [(1, 160, 240, 400, 240)] 640 480,
          Draw 1 (Rectangle (160, 240) (560, 480) (0, 0, 255) 1),
          Draw 1 (PutText ''Total Targets: 1'' (30, 30) 0 1 (0, 255, 0) 2),
          Imshow ''video'' 1 ((sample_frame 1)\<lparr>drawn :=
             [Rectangle (160, 240) (560, 480) (0, 0, 255) 1,
              PutText ''Total Targets: 1'' (30, 30) 0 1 (0, 255, 0) 2]\<rparr>),
          Read None, Release, DestroyAllWindows, WaitKey 10],
       self_width = 640, self_height = 480, current_frame = 2\<rparr>)"
  by (simp add: call_def get_video_from_file_def sample_capture_def init_state_def Let_def
      clamp_fps_def player_read_def loop_body_def stride_def truediv_def math_floor_def float64_values emit_def py_mod_def
      score_frame_def one_target_def last_column_def other_columns_def logic_def faces_of_def
      plot_boxes_def cv2_imshow_def cv2_rectangle_def cv2_putText_def draw_on_def
      sample_frame_def to_pixel_samples label_text_def str_nat.simps
      FONT_HERSHEY_SIMPLEX_def fun_upd_twist)

section \<open>Frame rates of zero\<close>

text \<open>
  With a target rate of 0 on a source of rate 30 that holds one frame, nothing rejects the
  configuration: the run reads the first frame and then raises \<open>ZeroDivisionError\<close> inside
  the loop.
\<close>

theorem zero_target_rate_counterexample:
  "fst (call no_target 0 (sample_capture 30 [sample_frame 0]) init_state) = Some ZeroDivisionError
   \<and> trace (snd (call no_target 0 (sample_capture 30 [sample_frame 0]) init_state))
       = [StartWindowThread, Read (Some 0)]"
  by (simp add: call_def get_video_from_file_def sample_capture_def init_state_def Let_def
      clamp_fps_def player_read_def loop_body_def stride_def truediv_def math_floor_def float64_values emit_def)

text \<open>
  C1, as the code behaves: the rates are not validated before streaming. When \<open>CAM_FMS\<close> is 0
  (and the source rate is not negative) or the source rate is 0, an opened source that
  delivers at least one frame makes the loop read the first frame and then raise
  \<open>ZeroDivisionError\<close> at the stride computation, before that frame is displayed or scored;
  a source that delivers no frame lets the run end without any error.
\<close>

theorem zero_rate_raises_in_loop:
  assumes "opened cap"
    and "(CAM_FMS = 0 \<and> 0 \<le> prop_fps cap) \<or> prop_fps cap = 0"
  shows "case stream cap of
           [] \<Rightarrow> fst (call model CAM_FMS cap s) = None
         | img # rest \<Rightarrow>
             fst (call model CAM_FMS cap s) = Some ZeroDivisionError
             \<and> trace (snd (call model CAM_FMS cap s))
                 = trace s @ [StartWindowThread, Read (Some (fresh s))]"
proof (cases "stream cap")
  case Nil
  with assms(1) show ?thesis
    by (simp add: call_empty)
next
  case (Cons img rest)
  from assms(2)
  have "stride (prop_fps cap) (clamp_fps CAM_FMS (prop_fps cap)) = Inl ZeroDivisionError
      \<or> stride (prop_fps cap) (clamp_fps CAM_FMS (prop_fps cap)) = Inr 0"
    by (auto simp: stride_def truediv_def math_floor_def float64_values clamp_fps_def)
  then have "stride_raises (stride (prop_fps cap) (clamp_fps CAM_FMS (prop_fps cap)))
      = Some ZeroDivisionError"
    by (auto simp: stride_raises_def)
  from call_abort [OF assms(1) Cons this] Cons show ?thesis
    by simp
qed

text \<open>The same at a source rate of 0 with one frame.\<close>

theorem zero_rate_raises_in_loop_witness:
  "opened (sample_capture 0 [sample_frame 0])
   \<and> prop_fps (sample_capture 0 [sample_frame 0]) = 0
   \<and> fst (call one_target 10 (sample_capture 0 [sample_frame 0]) init_state)
       = Some ZeroDivisionError
   \<and> trace (snd (call one_target 10 (sample_capture 0 [sample_frame 0]) init_state))
       = [StartWindowThread, Read (Some 0)]"
  using zero_rate_raises_in_loop [of "sample_capture 0 [sample_frame 0]" 10 one_target init_state]
  by (simp add: sample_capture_def init_state_def)

section \<open>The frame sampler\<close>

text \<open>
  C2: with source rate 30 and target rate 10 the stride is 3. Counting the read frames from
  1, the detector is called on exactly the frames whose number is a multiple of 3 (frame
  number \<open>i + 1\<close> is the entry \<open>i\<close> of the stream, read into buffer \<open>i\<close>); every other frame
  is shown in the window as it was read. The counter is set to 0 before the loop whatever
  the state before, grows by one in every pass through the loop body and equals the number
  of frames read at the end.
\<close>

theorem sampler_30_10:
  assumes "opened cap" and "prop_fps cap = 30"
  shows "stride (prop_fps cap) (clamp_fps 10 (prop_fps cap)) = Inr 3
    \<and> fst (call model 10 cap init_state) = None
    \<and> model_calls (trace (snd (call model 10 cap init_state)))
        = map (\<lambda>i. (i, stream cap ! i)) (filter (\<lambda>i. 3 dvd i + 1) [0..<length (stream cap)])
    \<and> (\<forall>i<length (stream cap). \<not> 3 dvd i + 1 \<longrightarrow>
          imshow_calls (trace (snd (call model 10 cap init_state))) ! i
            = (''video'', i, stream cap ! i))
    \<and> (\<forall>s. current_frame (snd (call model 10 cap s)) = int (length (stream cap)))
    \<and> (\<forall>frame s. current_frame (snd (loop_body model (prop_fps cap) (clamp_fps 10 (prop_fps cap))
          frame s)) = current_frame s + 1)"
proof -
  have k: "stride (prop_fps cap) (clamp_fps 10 (prop_fps cap)) = Inr 3" "(3::int) \<noteq> 0"
    by (simp_all add: assms(2) stride_def truediv_def math_floor_def float64_values clamp_fps_def)
  define evs where "evs = loop_events model 3 0 0 (stream cap) (prop_width cap) (prop_height cap)"
  have t: "trace (snd (call model 10 cap init_state))
      = [StartWindowThread] @ evs @ [Release, DestroyAllWindows, WaitKey 10]"
    using call_run(2) [OF assms(1) k, of model init_state]
    by (simp add: init_state_def evs_def)
  have dvd: "((0::int) + 1 + int i) mod 3 = 0 \<longleftrightarrow> 3 dvd i + 1" for i
    by presburger
  have m: "model_calls (trace (snd (call model 10 cap init_state))) = model_calls evs"
    and d: "imshow_calls (trace (snd (call model 10 cap init_state))) = imshow_calls evs"
    by (simp_all only: t model_calls_append imshow_calls_append calls_single append_Nil append_Nil2)
  have 1: "model_calls (trace (snd (call model 10 cap init_state)))
        = map (\<lambda>i. (i, stream cap ! i)) (filter (\<lambda>i. 3 dvd i + 1) [0..<length (stream cap)])"
    unfolding m evs_def model_calls_loop dvd by simp
  have 2: "imshow_calls (trace (snd (call model 10 cap init_state))) ! i
            = (''video'', i, stream cap ! i)"
    if "i < length (stream cap)" "\<not> 3 dvd i + 1" for i
    unfolding d evs_def imshow_calls_loop using that dvd [of i] by simp
  have 3: "current_frame (snd (loop_body model (prop_fps cap) (clamp_fps 10 (prop_fps cap))
          frame s)) = current_frame s + 1" for frame s
    using loop_body_run [OF k, of model frame s] by auto
  have 4: "current_frame (snd (call model 10 cap s)) = int (length (stream cap))" for s
    by (rule call_run(3) [OF assms(1) k])
  from k(1) call_run(1) [OF assms(1) k, of model init_state] 1 2 3 4
  show ?thesis by blast
qed

text \<open>Four frames: only the third is scored and the counter ends at 4.\<close>

theorem sampler_30_10_witness:
  "opened (sample_capture 30 (map sample_frame [0, 1, 2, 3]))
   \<and> prop_fps (sample_capture 30 (map sample_frame [0, 1, 2, 3])) = 30
   \<and> model_calls (trace (snd (call no_target 10
        (sample_capture 30 (map sample_frame [0, 1, 2, 3])) init_state)))
      = [(2, sample_frame 2)]
   \<and> current_frame (snd (call no_target 10
        (sample_capture 30 (map sample_frame [0, 1, 2, 3])) init_state)) = 4"
proof -
  have n: "length (stream (sample_capture 30 (map sample_frame [0, 1, 2, 3]))) = 4"
    by (simp add: sample_capture_def)
  have f: "filter (\<lambda>i. 3 dvd i + 1) [0..<4] = [2::nat]"
    by code_simp
  show ?thesis
    using sampler_30_10 [of "sample_capture 30 (map sample_frame [0, 1, 2, 3])" no_target]
    unfolding n f by (simp add: sample_capture_def)
qed

text \<open>
  C5: when the target rate is above a positive source rate, the rate used is the source
  rate, the stride is 1 and the detector is called on every frame read, in order.
\<close>

theorem target_above_source:
  assumes "opened cap" and "0 < prop_fps cap" and "prop_fps cap < CAM_FMS"
  shows "clamp_fps CAM_FMS (prop_fps cap) = prop_fps cap
    \<and> stride (prop_fps cap) (clamp_fps CAM_FMS (prop_fps cap)) = Inr 1
    \<and> fst (call model CAM_FMS cap init_state) = None
    \<and> model_calls (trace (snd (call model CAM_FMS cap init_state)))
        = map (\<lambda>i. (i, stream cap ! i)) [0..<length (stream cap)]"
proof -
  have c: "clamp_fps CAM_FMS (prop_fps cap) = prop_fps cap"
    using assms(3) by (simp add: clamp_fps_def)
  have k: "stride (prop_fps cap) (clamp_fps CAM_FMS (prop_fps cap)) = Inr 1" "(1::int) \<noteq> 0"
    using assms(2) by (simp_all add: c stride_def truediv_def math_floor_def float64_values)
  define evs where "evs = loop_events model 1 0 0 (stream cap) (prop_width cap) (prop_height cap)"
  have t: "trace (snd (call model CAM_FMS cap init_state))
      = [StartWindowThread] @ evs @ [Release, DestroyAllWindows, WaitKey 10]"
    using call_run(2) [OF assms(1) k, of model init_state]
    by (simp add: init_state_def evs_def)
  have m: "model_calls (trace (snd (call model CAM_FMS cap init_state))) = model_calls evs"
    by (simp only: t model_calls_append calls_single append_Nil append_Nil2)
  have "model_calls (trace (snd (call model CAM_FMS cap init_state)))
        = map (\<lambda>i. (i, stream cap ! i)) [0..<length (stream cap)]"
    unfolding m evs_def model_calls_loop by simp
  with c k(1) call_run(1) [OF assms(1) k, of model init_state]
  show ?thesis by blast
qed

text \<open>Target 60 on a source of rate 25 with three frames: all three are scored.\<close>

theorem target_above_source_witness:
  "opened (sample_capture 25 (map sample_frame [0, 1, 2]))
   \<and> (0::real) < prop_fps (sample_capture 25 (map sample_frame [0, 1, 2]))
   \<and> prop_fps (sample_capture 25 (map sample_frame [0, 1, 2])) < 60
   \<and> model_calls (trace (snd (call one_target 60
        (sample_capture 25 (map sample_frame [0, 1, 2])) init_state)))
      = [(0, sample_frame 0), (1, sample_frame 1), (2, sample_frame 2)]"
  using target_above_source [of "sample_capture 25 (map sample_frame [0, 1, 2])" 60 one_target]
  by (simp add: sample_capture_def)

section \<open>Pixel coordinates\<close>

text \<open>
  The normalized coordinate 7/8 on a frame 2 pixels wide: the code gives pixel 1, rounding
  gives 2, and converting pixel 1 back gives 1/2.
\<close>

theorem to_pixel_round_counterexample:
  "to_pixel (7/8) 2 \<noteq> round ((7/8 :: real) * real (2::nat))
   \<and> real_of_int (to_pixel (7/8) 2) / real (2::nat) \<noteq> 7/8"
  by (simp add: to_pixel_samples round_def)

text \<open>
  C3, as the code behaves: a pixel coordinate is \<^verbatim>\<open>int(norm * size)\<close>, the single precision
  product that numpy computes with its fraction cut off. It is truncated toward zero, not
  rounded: the pixel has the sign of the product and the floor of its magnitude, so its
  magnitude is at most that of the product and less than one below it. The conversion
  cannot be undone exactly: 7/8 and 1/2 give the same pixel on a width of 2. Both places
  that convert a row, the regions for the callback and the rectangle of the renderer, use
  this conversion, with the width for \<open>x1\<close>, \<open>x2\<close> and the height for \<open>y1\<close>, \<open>y2\<close>.
\<close>

theorem to_pixel_truncates:
  "real_of_int (to_pixel v w) = sgn (mul_float32 v w) * real_of_int \<lfloor>\<bar>mul_float32 v w\<bar>\<rfloor>
   \<and> \<bar>real_of_int (to_pixel v w)\<bar> \<le> \<bar>mul_float32 v w\<bar>
   \<and> \<bar>mul_float32 v w\<bar> < \<bar>real_of_int (to_pixel v w)\<bar> + 1
   \<and> to_pixel (7/8) 2 = to_pixel (1/2) 2
   \<and> faces_of [(a, b, c, d, e)] frame x_shape y_shape =
        [(frame, to_pixel a x_shape, to_pixel b y_shape,
          to_pixel c x_shape - to_pixel a x_shape, to_pixel d y_shape - to_pixel b y_shape)]
   \<and> box_draws n [(a, b, c, d, e)] x_shape y_shape [0] =
        [Rectangle (to_pixel a x_shape, to_pixel b y_shape) (to_pixel c x_shape, to_pixel d y_shape)
           (0, 0, 255) 1,
         PutText (label_text n) (30, 30) FONT_HERSHEY_SIMPLEX 1 (0, 255, 0) 2]"
proof -
  have r: "faces_of [(a, b, c, d, e)] frame x_shape y_shape =
        [(frame, to_pixel a x_shape, to_pixel b y_shape,
          to_pixel c x_shape - to_pixel a x_shape, to_pixel d y_shape - to_pixel b y_shape)]"
    "box_draws n [(a, b, c, d, e)] x_shape y_shape [0] =
        [Rectangle (to_pixel a x_shape, to_pixel b y_shape) (to_pixel c x_shape, to_pixel d y_shape)
           (0, 0, 255) 1,
         PutText (label_text n) (30, 30) FONT_HERSHEY_SIMPLEX 1 (0, 255, 0) 2]"
    by (simp_all add: faces_of_def box_draws_def Let_def)
  have t: "real_of_int (to_pixel v w) = sgn (mul_float32 v w) * real_of_int \<lfloor>\<bar>mul_float32 v w\<bar>\<rfloor>"
    "\<bar>real_of_int (to_pixel v w)\<bar> \<le> \<bar>mul_float32 v w\<bar>"
    "\<bar>mul_float32 v w\<bar> < \<bar>real_of_int (to_pixel v w)\<bar> + 1"
    unfolding to_pixel_def by (rule py_int_truncates)+
  have s: "to_pixel (7/8) 2 = to_pixel (1/2) 2"
    by (simp add: to_pixel_samples)
  from t s r show ?thesis
    by (intro conjI)
qed

text \<open>
  A negative product is cut toward zero, and the product that is cut is the rounded one:
  the single precision value nearest to 7/10 gives pixel 7 on a width of 10.
\<close>

theorem to_pixel_truncates_witness:
  "to_pixel (- 3/4) 2 = - 1 \<and> mul_float32 (- 3/4) 2 = - 3/2
   \<and> real_of_int (to_pixel (- 3/4) 2) = sgn (- 3/2 :: real) * real_of_int \<lfloor>\<bar>- 3/2 :: real\<bar>\<rfloor>
   \<and> to_pixel (7/8) 2 = 1 \<and> to_pixel (1/2) 2 = 1
   \<and> to_pixel (11744051 / 2 ^ 24) 10 = 7"
proof -
  have m: "mul_float32 (- 3/4) 2 = - 3/2"
    by (simp add: mul_float32_def float_eval)
  show ?thesis
    using to_pixel_truncates [of "- 3/4" 2] unfolding m
    by (simp add: to_pixel_samples)
qed

section \<open>The renderer\<close>

text \<open>
  C4 at an empty batch: \<^verbatim>\<open>plot_boxes\<close> draws nothing at all on the frame, no rectangle
  and no label, and only shows the frame. The call that writes the label is inside the
  loop over the detections, so it runs once per detection and never for an empty batch.
\<close>

theorem plot_boxes_empty_batch_draws_nothing:
  "plot_boxes ([], []) frame s
     = (Inr frame, s\<lparr>trace := trace s @ [Imshow ''video'' frame (heap s frame)]\<rparr>)"
  by (simp add: plot_boxes_def cv2_imshow_def emit_def)

text \<open>On a frame just read: the display is the only call and the buffer has no drawing.\<close>

theorem empty_batch_witness:
  "trace (snd (plot_boxes ([], []) 0 (snd (player_read (sample_frame 0) init_state))))
     = [Read (Some 0), Imshow ''video'' 0 (sample_frame 0)]
   \<and> drawn (heap (snd (plot_boxes ([], []) 0 (snd (player_read (sample_frame 0) init_state)))) 0)
     = []"
  using plot_boxes_empty_batch_draws_nothing [of 0 "snd (player_read (sample_frame 0) init_state)"]
  by (simp add: player_read_def init_state_def emit_def sample_frame_def)

text \<open>
  C9: \<^verbatim>\<open>plot_boxes\<close> returns the reference it was given; the heap changes at that
  reference only, where the buffer keeps its shape and content and gains the drawings; no
  new buffer is allocated. This needs a row of \<open>cord\<close> for every label, which every result
  of \<^verbatim>\<open>score_frame\<close> has; with fewer rows \<^verbatim>\<open>cord[i]\<close> raises.
\<close>

theorem plot_boxes_in_place:
  assumes "length labels \<le> length cord"
  shows "fst (plot_boxes (labels, cord) frame s) = Inr frame
    \<and> heap (snd (plot_boxes (labels, cord) frame s)) =
        (heap s)(frame := (heap s frame)\<lparr>drawn := drawn (heap s frame) @
           box_draws (length labels) cord (shape1 (heap s frame)) (shape0 (heap s frame))
             [0..<length labels]\<rparr>)
    \<and> fresh (snd (plot_boxes (labels, cord) frame s)) = fresh s
    \<and> length (fst (fst (score_frame model frame s))) \<le> length (snd (fst (score_frame model frame s)))"
  by (simp add: plot_boxes_paint [OF assms] cv2_imshow_def emit_def paint_def score_frame_lengths)

text \<open>One detection on a frame just read into buffer 0.\<close>

theorem plot_boxes_in_place_witness:
  "length [0::real] \<le> length [(1/4, 1/2, 7/8, 1, 9/10) :: cord_row]
   \<and> fst (plot_boxes ([0], [(1/4, 1/2, 7/8, 1, 9/10)]) 0
        (snd (player_read (sample_frame 0) init_state))) = Inr 0
   \<and> heap (snd (plot_boxes ([0], [(1/4, 1/2, 7/8, 1, 9/10)]) 0
        (snd (player_read (sample_frame 0) init_state)))) 0 =
       \<lparr>shape0 = 480, shape1 = 640, pixels = 0,
         drawn = [Rectangle (160, 240) (560, 480) (0, 0, 255) 1,
                  PutText ''Total Targets: 1'' (30, 30) 0 1 (0, 255, 0) 2]\<rparr>"
  using plot_boxes_in_place [of "[0]" "[(1/4, 1/2, 7/8, 1, 9/10)]" 0
      "snd (player_read (sample_frame 0) init_state)"]
  by (simp add: player_read_def init_state_def emit_def sample_frame_def box_draws_def
      to_pixel_samples label_text_def str_nat.simps FONT_HERSHEY_SIMPLEX_def)

section \<open>The callback\<close>

text \<open>
  C6: in every run the calls of the callback correspond one to one, in order, to the calls
  of the detector, and no frame is given to the detector twice: each scored frame gives one
  call, whose list holds for every row of that frame's batch, in order, the region
  \<open>(frame, x1, y1, x2 - x1, y2 - y1)\<close> in pixels of that frame, and is empty for an empty
  batch.
\<close>

theorem sink_called_once_per_scored_frame:
  "logic_calls (trace (snd (call model CAM_FMS cap init_state))) =
     map (\<lambda>(r, img).
            (map (\<lambda>d. (r, to_pixel (x1n d) (shape1 img), to_pixel (y1n d) (shape0 img),
                       to_pixel (x2n d) (shape1 img) - to_pixel (x1n d) (shape1 img),
                       to_pixel (y2n d) (shape0 img) - to_pixel (y1n d) (shape0 img)))
               (model img),
             prop_width cap, prop_height cap))
       (model_calls (trace (snd (call model CAM_FMS cap init_state))))
   \<and> distinct (map fst (model_calls (trace (snd (call model CAM_FMS cap init_state)))))"
proof -
  have f: "faces_of (other_columns rows) r x_shape y_shape =
      map (\<lambda>d. (r, to_pixel (x1n d) x_shape, to_pixel (y1n d) y_shape,
                 to_pixel (x2n d) x_shape - to_pixel (x1n d) x_shape,
                 to_pixel (y2n d) y_shape - to_pixel (y1n d) y_shape)) rows" for rows r x_shape y_shape
    by (simp add: faces_of_def other_columns_def Let_def o_def)
  show ?thesis
    using call_logic_calls [of model CAM_FMS cap] call_model_calls_distinct [of model CAM_FMS cap]
    unfolding f by simp
qed

text \<open>
  Two scored frames, the first with one detection and the second with none: two calls,
  the first with the region of the detection, the second with the empty list.
\<close>

theorem sink_called_once_per_scored_frame_witness:
  "logic_calls (trace (snd (call target_in_first 10
       (sample_capture 10 [sample_frame 0, sample_frame 1]) init_state)))
     = [([(0, 160, 240, 400, 240)], 640, 480), ([], 640, 480)]"
proof -
  have m: "model_calls (trace (snd (call target_in_first 10
       (sample_capture 10 [sample_frame 0, sample_frame 1]) init_state)))
      = [(0, sample_frame 0), (1, sample_frame 1)]"
    by (simp add: call_def get_video_from_file_def sample_capture_def init_state_def Let_def
        clamp_fps_def player_read_def loop_body_def stride_same emit_def py_mod_def
        score_frame_def target_in_first_def one_target_def last_column_def other_columns_def
        logic_def faces_of_def plot_boxes_def cv2_imshow_def cv2_rectangle_def cv2_putText_def
        draw_on_def sample_frame_def model_calls_def)
  show ?thesis
    using sink_called_once_per_scored_frame
      [of target_in_first 10 "sample_capture 10 [sample_frame 0, sample_frame 1]"]
    unfolding m
    by (simp add: target_in_first_def one_target_def sample_capture_def sample_frame_def
        to_pixel_samples)
qed

text \<open>
  C7: a pass through the loop body that scores the frame calls the detector, then the
  callback once, then draws and displays. The regions are
  \<open>(frame, x1, y1, x2 - x1, y2 - y1)\<close> with the pixel coordinates taken with the shape of
  the frame itself, and the two further arguments are the width and height stored on the
  object, which in a run are those the capture reported.
\<close>

theorem sink_call_precedes_rendering:
  assumes "stride frame_rate fps = Inr k" and "k \<noteq> 0" and "(current_frame s + 1) mod k = 0"
  shows "trace (snd (loop_body model frame_rate fps frame s)) =
      trace s @
      [Model frame (heap s frame),
       Logic (map (\<lambda>(a, b, c, d, _).
                 (frame, to_pixel a (shape1 (heap s frame)), to_pixel b (shape0 (heap s frame)),
                  to_pixel c (shape1 (heap s frame)) - to_pixel a (shape1 (heap s frame)),
                  to_pixel d (shape0 (heap s frame)) - to_pixel b (shape0 (heap s frame))))
               (other_columns (model (heap s frame))))
         (self_width s) (self_height s)]
      @ map (Draw frame) (rendered model (heap s frame))
      @ [Imshow ''video'' frame
           ((heap s frame)\<lparr>drawn := drawn (heap s frame) @ rendered model (heap s frame)\<rparr>)]
    \<and> (\<forall>(faces, w, h) \<in> set (logic_calls (trace (snd (call model CAM_FMS cap init_state)))).
          w = prop_width cap \<and> h = prop_height cap)"
proof -
  have f: "faces_of cord frame xs ys =
      map (\<lambda>(a, b, c, d, _). (frame, to_pixel a xs, to_pixel b ys,
             to_pixel c xs - to_pixel a xs, to_pixel d ys - to_pixel b ys)) cord" for cord xs ys
    by (simp add: faces_of_def Let_def)
  from loop_body_run [OF assms(1,2), of model frame s] assms(3)
  have "trace (snd (loop_body model frame_rate fps frame s)) =
      trace s @
      [Model frame (heap s frame),
       Logic (faces_of (other_columns (model (heap s frame))) frame (shape1 (heap s frame))
                (shape0 (heap s frame)))
         (self_width s) (self_height s)]
      @ map (Draw frame) (rendered model (heap s frame))
      @ [Imshow ''video'' frame
           ((heap s frame)\<lparr>drawn := drawn (heap s frame) @ rendered model (heap s frame)\<rparr>)]"
    by (auto simp: frame_events_def)
  moreover have "\<forall>(faces, w, h) \<in> set (logic_calls (trace (snd (call model CAM_FMS cap init_state)))).
          w = prop_width cap \<and> h = prop_height cap"
    unfolding call_logic_calls by auto
  ultimately show ?thesis
    unfolding f by blast
qed

text \<open>One detection on a 640 by 480 frame.\<close>

theorem sink_call_precedes_rendering_witness:
  "stride 10 10 = Inr 1 \<and> (1::int) \<noteq> 0
   \<and> (current_frame (snd (player_read (sample_frame 0) init_state)) + 1) mod 1 = 0
   \<and> trace (snd (loop_body one_target 10 10 0
        (snd (player_read (sample_frame 0) init_state)))) =
      [Read (Some 0), Model 0 (sample_frame 0), Logic [(0, 160, 240, 400, 240)] 0 0,
       Draw 0 (Rectangle (160, 240) (560, 480) (0, 0, 255) 1),
       Draw 0 (PutText ''Total Targets: 1'' (30, 30) 0 1 (0, 255, 0) 2),
       Imshow ''video'' 0 \<lparr>shape0 = 480, shape1 = 640, pixels = 0,
         drawn = [Rectangle (160, 240) (560, 480) (0, 0, 255) 1,
                  PutText ''Total Targets: 1'' (30, 30) 0 1 (0, 255, 0) 2]\<rparr>]"
proof -
  have k: "stride 10 10 = Inr 1"
    by (simp add: stride_def truediv_def math_floor_def float64_values)
  have c: "(current_frame (snd (player_read (sample_frame 0) init_state)) + 1) mod 1 = 0"
    by simp
  have r: "rendered one_target (sample_frame 0) =
      [Rectangle (160, 240) (560, 480) (0, 0, 255) 1,
       PutText ''Total Targets: 1'' (30, 30) 0 1 (0, 255, 0) 2]"
    by (simp add: rendered_def one_target_def other_columns_def box_draws_def sample_frame_def
        to_pixel_samples label_text_def str_nat.simps FONT_HERSHEY_SIMPLEX_def)
  show ?thesis
    using sink_call_precedes_rendering [OF k _ c, of one_target 0 10 unopened_capture]
    by (simp add: k player_read_def init_state_def emit_def r)
      (simp add: sample_frame_def one_target_def other_columns_def to_pixel_samples)
qed

section \<open>Opening the source\<close>

text \<open>
  A capture that is not opened: \<^verbatim>\<open>get_video_from_file\<close> returns normally and the run ends
  with \<open>AssertionError\<close>, not \<open>IOError\<close>.
\<close>

theorem open_failure_counterexample:
  "get_video_from_file unopened_capture init_state
     = (unopened_capture, init_state\<lparr>self_width := 0, self_height := 0\<rparr>)
   \<and> fst (call no_target 10 unopened_capture init_state) = Some AssertionError
   \<and> fst (call no_target 10 unopened_capture init_state) \<noteq> Some IOError"
  by (simp add: call_def get_video_from_file_def unopened_capture_def)

text \<open>
  C8, as the code behaves: \<^verbatim>\<open>get_video_from_file\<close> never raises; it stores the reported
  width and height on the object and returns the capture, from which the frame rate is
  read. When the capture is not opened the run fails with \<open>AssertionError\<close> before any
  frame is read; when it is opened the run never raises \<open>AssertionError\<close>.
\<close>

theorem open_failure_is_assertion:
  "get_video_from_file cap s
     = (cap, s\<lparr>self_width := prop_width cap, self_height := prop_height cap\<rparr>)
   \<and> (\<not> opened cap \<longrightarrow>
        fst (call model CAM_FMS cap s) = Some AssertionError
        \<and> trace (snd (call model CAM_FMS cap s)) = trace s @ [StartWindowThread])
   \<and> (opened cap \<longrightarrow> fst (call model CAM_FMS cap s) \<noteq> Some AssertionError)"
proof -
  have "fst (call model CAM_FMS cap s) \<noteq> Some AssertionError" if o: "opened cap"
  proof (cases rule: call_cases [where cap = cap and CAM_FMS = CAM_FMS])
    case unopened
    with o show ?thesis by simp
  next
    case empty
    then show ?thesis by (simp add: call_empty)
  next
    case (abort e img rest)
    from stride_raises_Some [OF abort(3)] show ?thesis
      by (auto simp: call_abort(1) [OF abort])
  next
    case (run k)
    then show ?thesis by (simp add: call_run)
  qed
  then show ?thesis
    by (simp add: call_unopened emit_def) (simp add: get_video_from_file_def)
qed

text \<open>A capture that is not opened, and an opened one without frames.\<close>

theorem open_failure_is_assertion_witness:
  "\<not> opened unopened_capture
   \<and> fst (call one_target 25 unopened_capture init_state) = Some AssertionError
   \<and> trace (snd (call one_target 25 unopened_capture init_state)) = [StartWindowThread]
   \<and> opened (sample_capture 25 [])
   \<and> fst (call one_target 25 (sample_capture 25 []) init_state) \<noteq> Some AssertionError"
  using open_failure_is_assertion [of unopened_capture init_state one_target 25]
    open_failure_is_assertion [of "sample_capture 25 []" init_state one_target 25]
  by (simp add: unopened_capture_def sample_capture_def init_state_def)

section \<open>The display\<close>

text \<open>The rectangles among the drawing calls for a scored frame, one for every row.\<close>

lemma rectangles_rendered:
  "filter is_rectangle (rendered model img) =
     map (\<lambda>d. Rectangle (to_pixel (x1n d) (shape1 img), to_pixel (y1n d) (shape0 img))
                (to_pixel (x2n d) (shape1 img), to_pixel (y2n d) (shape0 img)) (0, 0, 255) 1)
       (model img)"
proof -
  have "filter is_rectangle
      (concat (map (\<lambda>(a, b, c, d, _).
        [Rectangle (to_pixel a xs, to_pixel b ys) (to_pixel c xs, to_pixel d ys) (0, 0, 255) 1,
         PutText str (30, 30) FONT_HERSHEY_SIMPLEX 1 (0, 255, 0) 2]) (other_columns rows))) =
     map (\<lambda>d. Rectangle (to_pixel (x1n d) xs, to_pixel (y1n d) ys)
                (to_pixel (x2n d) xs, to_pixel (y2n d) ys) (0, 0, 255) 1) rows" for rows xs ys str
    by (induction rows) (simp_all add: other_columns_def)
  then show ?thesis
    unfolding rendered_rows .
qed

text \<open>
  With a target rate of 0 on a source of rate 30 that holds one frame, the frame is read
  and never shown.
\<close>

theorem read_frame_not_shown_counterexample:
  "read_calls (trace (snd (call no_target 0 (sample_capture 30 [sample_frame 0]) init_state)))
     = [Some 0]
   \<and> imshow_calls (trace (snd (call no_target 0 (sample_capture 30 [sample_frame 0]) init_state)))
     = []"
  by (simp add: call_def get_video_from_file_def sample_capture_def init_state_def Let_def
      clamp_fps_def player_read_def loop_body_def stride_zero_divisor emit_def read_calls_def
      imshow_calls_def)

text \<open>
  C10, as the code behaves: when the stride of line 107 is defined and not 0, the run ends
  normally and every frame read is shown in the window \<open>video\<close> exactly once, in the order
  read: a frame that is not scored as it was read, a scored frame with its shape and
  content unchanged and one rectangle drawn on it for every row of its batch. When line
  107 raises instead (a stride that is undefined or 0), the run ends with that exception
  in the first pass: the first frame is read and no frame is shown.
\<close>

theorem frames_shown_unless_stride_raises:
  assumes "opened cap"
  shows
    "(\<forall>k. stride (prop_fps cap) (clamp_fps CAM_FMS (prop_fps cap)) = Inr k \<and> k \<noteq> 0 \<longrightarrow>
        fst (call model CAM_FMS cap init_state) = None
        \<and> read_calls (trace (snd (call model CAM_FMS cap init_state)))
            = map Some [0..<length (stream cap)] @ [None]
        \<and> map (\<lambda>(name, r, img). (name, r))
              (imshow_calls (trace (snd (call model CAM_FMS cap init_state))))
            = map (\<lambda>i. (''video'', i)) [0..<length (stream cap)]
        \<and> (\<forall>i<length (stream cap). (int i + 1) mod k \<noteq> 0 \<longrightarrow>
              snd (snd (imshow_calls (trace (snd (call model CAM_FMS cap init_state))) ! i))
                = stream cap ! i)
        \<and> (\<forall>i<length (stream cap). (int i + 1) mod k = 0 \<longrightarrow>
              shape0 (snd (snd (imshow_calls (trace (snd (call model CAM_FMS cap init_state))) ! i)))
                = shape0 (stream cap ! i)
              \<and> shape1 (snd (snd (imshow_calls (trace (snd (call model CAM_FMS cap init_state))) ! i)))
                = shape1 (stream cap ! i)
              \<and> pixels (snd (snd (imshow_calls (trace (snd (call model CAM_FMS cap init_state))) ! i)))
                = pixels (stream cap ! i)
              \<and> filter is_rectangle
                  (drawn (snd (snd (imshow_calls (trace (snd (call model CAM_FMS cap init_state))) ! i))))
                = filter is_rectangle (drawn (stream cap ! i)) @
                  map (\<lambda>d. Rectangle
                          (to_pixel (x1n d) (shape1 (stream cap ! i)),
                           to_pixel (y1n d) (shape0 (stream cap ! i)))
                          (to_pixel (x2n d) (shape1 (stream cap ! i)),
                           to_pixel (y2n d) (shape0 (stream cap ! i))) (0, 0, 255) 1)
                    (model (stream cap ! i))))
     \<and> ((\<forall>k. stride (prop_fps cap) (clamp_fps CAM_FMS (prop_fps cap)) = Inr k \<longrightarrow> k = 0) \<longrightarrow>
          (case stream cap of
             [] \<Rightarrow>
               fst (call model CAM_FMS cap init_state) = None
               \<and> read_calls (trace (snd (call model CAM_FMS cap init_state))) = [None]
               \<and> imshow_calls (trace (snd (call model CAM_FMS cap init_state))) = []
           | img # rest \<Rightarrow>
               (fst (call model CAM_FMS cap init_state) = Some ZeroDivisionError
                \<or> fst (call model CAM_FMS cap init_state) = Some OverflowError)
               \<and> read_calls (trace (snd (call model CAM_FMS cap init_state))) = [Some 0]
               \<and> imshow_calls (trace (snd (call model CAM_FMS cap init_state))) = []))"
proof (intro conjI allI impI)
  fix k
  assume "stride (prop_fps cap) (clamp_fps CAM_FMS (prop_fps cap)) = Inr k \<and> k \<noteq> 0"
  then have k: "stride (prop_fps cap) (clamp_fps CAM_FMS (prop_fps cap)) = Inr k" "k \<noteq> 0"
    by simp_all
  define shown where "shown = imshow_calls (trace (snd (call model CAM_FMS cap init_state)))"
  have sh: "shown = map (\<lambda>i. (''video'', i,
                if (int i + 1) mod k \<noteq> 0 then stream cap ! i
                else (stream cap ! i)\<lparr>drawn := drawn (stream cap ! i)
                       @ rendered model (stream cap ! i)\<rparr>))
       [0..<length (stream cap)]"
    unfolding shown_def call_run_calls(3) [OF assms k] imshow_calls_loop
    by (simp add: add.commute)
  show "fst (call model CAM_FMS cap init_state) = None"
    by (rule call_run(1) [OF assms k])
  show "read_calls (trace (snd (call model CAM_FMS cap init_state)))
      = map Some [0..<length (stream cap)] @ [None]"
    unfolding call_run_calls(4) [OF assms k] read_calls_loop by simp
  show "map (\<lambda>(name, r, img). (name, r))
          (imshow_calls (trace (snd (call model CAM_FMS cap init_state))))
      = map (\<lambda>i. (''video'', i)) [0..<length (stream cap)]"
    unfolding shown_def [symmetric] sh by (simp add: o_def)
  fix i
  assume i: "i < length (stream cap)"
  have nth: "shown ! i = (''video'', i,
                if (int i + 1) mod k \<noteq> 0 then stream cap ! i
                else (stream cap ! i)\<lparr>drawn := drawn (stream cap ! i)
                       @ rendered model (stream cap ! i)\<rparr>)"
    unfolding sh using i by simp
  {
    assume "(int i + 1) mod k \<noteq> 0"
    then show "snd (snd (imshow_calls (trace (snd (call model CAM_FMS cap init_state))) ! i))
        = stream cap ! i"
      unfolding shown_def [symmetric] nth by simp
  }
  {
    assume z: "(int i + 1) mod k = 0"
    show "shape0 (snd (snd (imshow_calls (trace (snd (call model CAM_FMS cap init_state))) ! i)))
        = shape0 (stream cap ! i)"
      unfolding shown_def [symmetric] nth using z by simp
    show "shape1 (snd (snd (imshow_calls (trace (snd (call model CAM_FMS cap init_state))) ! i)))
        = shape1 (stream cap ! i)"
      unfolding shown_def [symmetric] nth using z by simp
    show "pixels (snd (snd (imshow_calls (trace (snd (call model CAM_FMS cap init_state))) ! i)))
        = pixels (stream cap ! i)"
      unfolding shown_def [symmetric] nth using z by simp
    show "filter is_rectangle
          (drawn (snd (snd (imshow_calls (trace (snd (call model CAM_FMS cap init_state))) ! i))))
        = filter is_rectangle (drawn (stream cap ! i)) @
          map (\<lambda>d. Rectangle
                  (to_pixel (x1n d) (shape1 (stream cap ! i)),
                   to_pixel (y1n d) (shape0 (stream cap ! i)))
                  (to_pixel (x2n d) (shape1 (stream cap ! i)),
                   to_pixel (y2n d) (shape0 (stream cap ! i))) (0, 0, 255) 1)
            (model (stream cap ! i))"
      unfolding shown_def [symmetric] nth using z by (simp add: rectangles_rendered)
  }
next
  assume none: "\<forall>k. stride (prop_fps cap) (clamp_fps CAM_FMS (prop_fps cap)) = Inr k \<longrightarrow> k = 0"
  show "case stream cap of
      [] \<Rightarrow>
        fst (call model CAM_FMS cap init_state) = None
        \<and> read_calls (trace (snd (call model CAM_FMS cap init_state))) = [None]
        \<and> imshow_calls (trace (snd (call model CAM_FMS cap init_state))) = []
    | img # rest \<Rightarrow>
        (fst (call model CAM_FMS cap init_state) = Some ZeroDivisionError
         \<or> fst (call model CAM_FMS cap init_state) = Some OverflowError)
        \<and> read_calls (trace (snd (call model CAM_FMS cap init_state))) = [Some 0]
        \<and> imshow_calls (trace (snd (call model CAM_FMS cap init_state))) = []"
  proof (cases "stream cap")
    case Nil
    with assms show ?thesis
      by (simp add: call_empty(1) call_empty_calls)
  next
    case (Cons img rest)
    from none have "stride_raises (stride (prop_fps cap) (clamp_fps CAM_FMS (prop_fps cap))) \<noteq> None"
      by (auto simp: stride_raises_None)
    then obtain e
      where e: "stride_raises (stride (prop_fps cap) (clamp_fps CAM_FMS (prop_fps cap))) = Some e"
      by auto
    from stride_raises_Some [OF e] call_abort(1) [OF assms Cons e, of model init_state]
      call_abort_calls(3,4) [OF assms Cons e, of model] Cons
    show ?thesis
      by auto
  qed
qed

text \<open>
  Two frames at stride 2: the first is shown as read, the second with the rectangle of its
  detection. One frame on a source that reports rate 0: read and not shown.
\<close>

theorem frames_shown_unless_stride_raises_witness:
  "opened (sample_capture 20 [sample_frame 0, sample_frame 1])
   \<and> stride 20 (clamp_fps 10 20) = Inr 2
   \<and> read_calls (trace (snd (call one_target 10
        (sample_capture 20 [sample_frame 0, sample_frame 1]) init_state)))
       = [Some 0, Some 1, None]
   \<and> map (\<lambda>(name, r, img). (name, r)) (imshow_calls (trace (snd (call one_target 10
        (sample_capture 20 [sample_frame 0, sample_frame 1]) init_state))))
       = [(''video'', 0), (''video'', 1)]
   \<and> snd (snd (imshow_calls (trace (snd (call one_target 10
        (sample_capture 20 [sample_frame 0, sample_frame 1]) init_state))) ! 0))
       = sample_frame 0
   \<and> filter is_rectangle (drawn (snd (snd (imshow_calls (trace (snd (call one_target 10
        (sample_capture 20 [sample_frame 0, sample_frame 1]) init_state))) ! 1))))
       = [Rectangle (160, 240) (560, 480) (0, 0, 255) 1]
   \<and> opened (sample_capture 0 [sample_frame 0])
   \<and> stride 0 (clamp_fps 10 0) = Inl ZeroDivisionError
   \<and> fst (call one_target 10 (sample_capture 0 [sample_frame 0]) init_state)
       = Some ZeroDivisionError
   \<and> read_calls (trace (snd (call one_target 10 (sample_capture 0 [sample_frame 0]) init_state)))
       = [Some 0]
   \<and> imshow_calls (trace (snd (call one_target 10 (sample_capture 0 [sample_frame 0]) init_state)))
       = []"
proof -
  let ?c = "sample_capture 20 [sample_frame 0, sample_frame 1]"
  let ?z = "sample_capture 0 [sample_frame 0]"
  have o: "opened ?c" "opened ?z"
    by (simp_all add: sample_capture_def)
  have k: "stride (prop_fps ?c) (clamp_fps 10 (prop_fps ?c)) = Inr 2"
    "stride 20 (clamp_fps 10 20) = Inr 2"
    by (simp_all add: sample_capture_def clamp_fps_def stride_samples)
  have z: "stride (prop_fps ?z) (clamp_fps 10 (prop_fps ?z)) = Inl ZeroDivisionError"
    "stride 0 (clamp_fps 10 0) = Inl ZeroDivisionError"
    by (simp_all add: sample_capture_def clamp_fps_def stride_zero_divisor)
  have e: "fst (call one_target 10 ?z init_state) = Some ZeroDivisionError"
    by (rule call_abort(1) [where img = "sample_frame 0" and rest = "[]"])
      (simp_all add: o z stride_raises_def, simp add: sample_capture_def)
  have two: "stride (prop_fps ?c) (clamp_fps 10 (prop_fps ?c)) = Inr 2 \<and> (2::int) \<noteq> 0"
    using k(1) by simp
  note run = frames_shown_unless_stride_raises [OF o(1), of 10 one_target, THEN conjunct1,
      rule_format, OF two]
  note reads0 = run [THEN conjunct2, THEN conjunct1]
  note wins0 = run [THEN conjunct2, THEN conjunct2, THEN conjunct1]
  note unscored = run [THEN conjunct2, THEN conjunct2, THEN conjunct2, THEN conjunct1, rule_format]
  note scored = run [THEN conjunct2, THEN conjunct2, THEN conjunct2, THEN conjunct2, rule_format]
  have never: "\<forall>k. stride (prop_fps ?z) (clamp_fps 10 (prop_fps ?z)) = Inr k \<longrightarrow> k = 0"
    using z(1) by simp
  from frames_shown_unless_stride_raises [OF o(2), of 10 one_target, THEN conjunct2,
      THEN mp, OF never]
  have stop: "case stream ?z of
      [] \<Rightarrow>
        fst (call one_target 10 ?z init_state) = None
        \<and> read_calls (trace (snd (call one_target 10 ?z init_state))) = [None]
        \<and> imshow_calls (trace (snd (call one_target 10 ?z init_state))) = []
    | img # rest \<Rightarrow>
        (fst (call one_target 10 ?z init_state) = Some ZeroDivisionError
         \<or> fst (call one_target 10 ?z init_state) = Some OverflowError)
        \<and> read_calls (trace (snd (call one_target 10 ?z init_state))) = [Some 0]
        \<and> imshow_calls (trace (snd (call one_target 10 ?z init_state))) = []" .
  have first: "snd (snd (imshow_calls (trace (snd (call one_target 10 ?c init_state))) ! 0))
      = sample_frame 0"
    using unscored [of 0] by (simp add: sample_capture_def)
  have second: "filter is_rectangle (drawn (snd (snd (imshow_calls (trace (snd (call one_target 10
        ?c init_state))) ! 1)))) = [Rectangle (160, 240) (560, 480) (0, 0, 255) 1]"
    using scored [of 1]
    by (simp add: sample_capture_def sample_frame_def one_target_def to_pixel_samples)
  have reads: "read_calls (trace (snd (call one_target 10 ?c init_state))) = [Some 0, Some 1, None]"
    using reads0 by (simp add: sample_capture_def)
  have wins: "map (\<lambda>(name, r, img). (name, r))
      (imshow_calls (trace (snd (call one_target 10 ?c init_state)))) = [(''video'', 0), (''video'', 1)]"
    using wins0 by (simp add: sample_capture_def)
  have stopped: "read_calls (trace (snd (call one_target 10 ?z init_state))) = [Some 0]"
    "imshow_calls (trace (snd (call one_target 10 ?z init_state))) = []"
    using stop by (simp_all add: sample_capture_def)
  from o k(2) z(2) e first second reads wins stopped show ?thesis
    by (intro conjI)
qed

end
